theory Spec2Isabelle
  imports Complex_Main
begin

unbundle bit_operations_syntax

section \<open>Channel status\<close>

text \<open>
  The enumeration \<^verbatim>\<open>Caen1471.ChannelStatus\<close>, its members in declaration order and the
  integer each member carries.
\<close>

datatype ChannelStatus =
    OFF | ON | RAMPING_UP | RAMPING_DOWN | OVER_CURRENT | OVER_VOLTAGE | UNDER_VOLTAGE
  | MAX_VOLTAGE | TRIPPED | OVER_POWERED | OVER_TEMPERATURE | DISABLED | KILLED
  | INTERLOCKED | NO_CALIBRATION

fun status_value :: "ChannelStatus \<Rightarrow> int" where
  "status_value OFF = 0"
| "status_value ON = 1"
| "status_value RAMPING_UP = 2"
| "status_value RAMPING_DOWN = 3"
| "status_value OVER_CURRENT = 4"
| "status_value OVER_VOLTAGE = 5"
| "status_value UNDER_VOLTAGE = 6"
| "status_value MAX_VOLTAGE = 7"
| "status_value TRIPPED = 8"
| "status_value OVER_POWERED = 9"
| "status_value OVER_TEMPERATURE = 10"
| "status_value DISABLED = 11"
| "status_value KILLED = 12"
| "status_value INTERLOCKED = 13"
| "status_value NO_CALIBRATION = 14"

definition ChannelStatus_members :: "ChannelStatus list" where
  "ChannelStatus_members =
     [OFF, ON, RAMPING_UP, RAMPING_DOWN, OVER_CURRENT, OVER_VOLTAGE, UNDER_VOLTAGE,
      MAX_VOLTAGE, TRIPPED, OVER_POWERED, OVER_TEMPERATURE, DISABLED, KILLED,
      INTERLOCKED, NO_CALIBRATION]"

text \<open>
  The body of the \<^verbatim>\<open>for\<close> loop of \<^verbatim>\<open>_parse_state\<close> over the members still to be visited:
  \<^verbatim>\<open>if s is not OFF: if state & (1 << (s.value - 1)): return s\<close>, and \<^verbatim>\<open>return OFF\<close> after
  the loop. The shift count is only computed for a member other than \<^verbatim>\<open>OFF\<close>, so it is
  never negative.
\<close>

fun parse_state_loop :: "int \<Rightarrow> ChannelStatus list \<Rightarrow> ChannelStatus" where
  "parse_state_loop state [] = OFF"
| "parse_state_loop state (s # ss) =
     (if s \<noteq> OFF then
        (if state AND push_bit (nat (status_value s - 1)) 1 \<noteq> 0 then s
         else parse_state_loop state ss)
      else parse_state_loop state ss)"

definition parse_state :: "int \<Rightarrow> ChannelStatus" where
  "parse_state state = parse_state_loop state (rev ChannelStatus_members)"

section \<open>Text\<close>

text \<open>
  A Python \<^verbatim>\<open>str\<close> is a \<^typ>\<open>string\<close>, one \<^typ>\<open>char\<close> for each code point below 256. The
  driver encodes and decodes with the \<^verbatim>\<open>ascii\<close> codec, so the text on the wire has code
  points below 128 only.
\<close>

definition CR :: char where
  "CR = CHR 0x0D"

definition LF :: char where
  "LF = CHR 0x0A"

definition is_digit :: "char \<Rightarrow> bool" where
  \<comment> \<open>the character class \<^verbatim>\<open>[0-9]\<close>, and the decimal digits \<^verbatim>\<open>int\<close> and \<^verbatim>\<open>float\<close> accept\<close>
  "is_digit c = (48 \<le> (of_char c :: nat) \<and> (of_char c :: nat) \<le> 57)"

definition is_space :: "char \<Rightarrow> bool" where
  \<comment> \<open>\<^verbatim>\<open>str.isspace\<close> on the code points below 256: what \<^verbatim>\<open>lstrip()\<close>, \<^verbatim>\<open>int\<close> and \<^verbatim>\<open>float\<close> trim\<close>
  "is_space c =
     (let n = (of_char c :: nat)
      in (9 \<le> n \<and> n \<le> 13) \<or> (28 \<le> n \<and> n \<le> 32) \<or> n = 0x85 \<or> n = 0xA0)"

definition is_ascii :: "string \<Rightarrow> bool" where
  "is_ascii s = (\<forall>c \<in> set s. (of_char c :: nat) < 128)"

definition lstrip :: "string \<Rightarrow> string" where
  "lstrip s = dropWhile is_space s"

definition strip :: "string \<Rightarrow> string" where
  "strip s = rev (dropWhile is_space (rev (dropWhile is_space s)))"

definition digit_char :: "nat \<Rightarrow> char" where
  "digit_char d = char_of (48 + d)"

definition digit_val :: "char \<Rightarrow> nat" where
  "digit_val c = (of_char c :: nat) - 48"

text \<open>\<^verbatim>\<open>str\<close> of an \<^verbatim>\<open>int\<close>: the decimal digits, after a minus sign for a negative number.\<close>

fun str_nat :: "nat \<Rightarrow> string" where
  "str_nat n = (if n < 10 then [digit_char n] else str_nat (n div 10) @ [digit_char (n mod 10)])"

declare str_nat.simps [simp del]

definition str_int :: "int \<Rightarrow> string" where
  "str_int i = (if i < 0 then CHR ''-'' # str_nat (nat (- i)) else str_nat (nat i))"

definition nat_of_digits :: "string \<Rightarrow> nat" where
  "nat_of_digits ds = foldl (\<lambda>acc c. 10 * acc + digit_val c) 0 ds"

section \<open>Values and exceptions\<close>

text \<open>
  A finite \<^verbatim>\<open>float\<close> is represented by its sign and the magnitude of its exact value, so
  that \<^verbatim>\<open>-0.0\<close> is a value of its own. The conversion \<^verbatim>\<open>float(str)\<close> yields the float nearest
  to the decimal number written in the string; the model keeps the decimal number itself and
  leaves the rounding to 53 bits out.
\<close>

datatype pyfloat = Finite bool rat | Infinity bool | NaN

datatype pyval = PStr string | PInt int | PFloat pyfloat

text \<open>The value of the \<^verbatim>\<open>type_\<close> argument, when it is not \<^verbatim>\<open>None\<close>.\<close>

datatype pytype = TFloat | TInt | TStr

text \<open>
  The exceptions of \<^verbatim>\<open>exceptions.py\<close> and the built-in ones that the driver raises or lets
  through.
\<close>

datatype error =
    UnknownCommandError | InvalidReplyError | ChannelError | ParameterError
  | ValueError | PermissionError | TimeoutError | ConnectionError | TypeError
  | OverflowError | UnicodeEncodeError | UnicodeDecodeError

section \<open>Conversions of a payload\<close>

text \<open>
  A run of digits in which single underscores may stand between two digits: the
  \<^verbatim>\<open>digitpart\<close> of Python's grammar of numbers.
\<close>

fun digitpart_from :: "bool \<Rightarrow> string \<Rightarrow> bool" where
  \<comment> \<open>the flag says that the previous character was a digit\<close>
  "digitpart_from prev [] = prev"
| "digitpart_from prev (c # cs) =
     (if is_digit c then digitpart_from True cs
      else if c = CHR ''_'' \<and> prev then (cs \<noteq> [] \<and> is_digit (hd cs) \<and> digitpart_from False cs)
      else False)"

definition is_digitpart :: "string \<Rightarrow> bool" where
  "is_digitpart s = digitpart_from False s"

definition digits_of :: "string \<Rightarrow> string" where
  "digits_of s = filter is_digit s"

definition split_sign :: "string \<Rightarrow> bool \<times> string" where
  \<comment> \<open>an optional sign, and whether it is a minus\<close>
  "split_sign s =
     (case s of
        [] \<Rightarrow> (False, [])
      | c # cs \<Rightarrow>
          if c = CHR ''-'' then (True, cs)
          else if c = CHR ''+'' then (False, cs)
          else (False, s))"

text \<open>
  \<^verbatim>\<open>int(s)\<close> for a string: surrounding whitespace is trimmed, then an optional sign and a
  \<^verbatim>\<open>digitpart\<close> in base ten; anything else raises \<^verbatim>\<open>ValueError\<close>.
\<close>

definition py_int :: "string \<Rightarrow> error + int" where
  "py_int s =
     (let (neg, body) = split_sign (strip s)
      in if is_digitpart body
         then Inr ((if neg then - 1 else 1) * int (nat_of_digits (digits_of body)))
         else Inl ValueError)"

definition lower :: "string \<Rightarrow> string" where
  \<comment> \<open>ASCII letters to lower case\<close>
  "lower s =
     map (\<lambda>c. if 65 \<le> (of_char c :: nat) \<and> (of_char c :: nat) \<le> 90
               then char_of ((of_char c :: nat) + 32) else c) s"

definition split_at :: "(char \<Rightarrow> bool) \<Rightarrow> string \<Rightarrow> string \<times> string option" where
  \<comment> \<open>the text before the first character that satisfies \<open>P\<close>, and the text after it, if any\<close>
  "split_at P s =
     (case dropWhile (\<lambda>c. \<not> P c) s of
        [] \<Rightarrow> (s, None)
      | _ # rest \<Rightarrow> (takeWhile (\<lambda>c. \<not> P c) s, Some rest))"

text \<open>
  The exponent part after \<^verbatim>\<open>e\<close> or \<^verbatim>\<open>E\<close>: an optional sign and a \<^verbatim>\<open>digitpart\<close>.
\<close>

definition py_exponent :: "string \<Rightarrow> int option" where
  "py_exponent s =
     (let (neg, body) = split_sign s
      in if is_digitpart body
         then Some ((if neg then - 1 else 1) * int (nat_of_digits (digits_of body)))
         else None)"

definition pow10 :: "int \<Rightarrow> rat" where
  "pow10 e = (if 0 \<le> e then 10 ^ nat e else 1 / 10 ^ nat (- e))"

text \<open>
  \<^verbatim>\<open>float(s)\<close> for a string: surrounding whitespace is trimmed, then an optional sign and
  either \<^verbatim>\<open>inf\<close>, \<^verbatim>\<open>infinity\<close> or \<^verbatim>\<open>nan\<close> in any case, or a decimal number
  \<^verbatim>\<open>[digitpart] "." digitpart | digitpart ["."]\<close> with an optional exponent; anything else
  raises \<^verbatim>\<open>ValueError\<close>.
\<close>

definition py_float :: "string \<Rightarrow> error + pyfloat" where
  "py_float s =
     (let (neg, body) = split_sign (strip s)
      in if lower body = ''inf'' \<or> lower body = ''infinity'' then Inr (Infinity neg)
         else if lower body = ''nan'' then Inr NaN
         else
           let (number, expo) = split_at (\<lambda>c. c = CHR ''e'' \<or> c = CHR ''E'') body;
               (ipart, fpart) = split_at (\<lambda>c. c = CHR ''.'') number;
               frac = (case fpart of None \<Rightarrow> [] | Some f \<Rightarrow> f);
               number_ok =
                 (if frac = [] then is_digitpart ipart
                  else (ipart = [] \<or> is_digitpart ipart) \<and> is_digitpart frac);
               e = (case expo of None \<Rightarrow> Some 0 | Some x \<Rightarrow> py_exponent x)
           in case e of
                None \<Rightarrow> Inl ValueError
              | Some k \<Rightarrow>
                  if number_ok
                  then Inr (Finite neg
                         (of_nat (nat_of_digits (digits_of ipart @ digits_of frac))
                            * pow10 (k - int (length (digits_of frac)))))
                  else Inl ValueError)"

text \<open>The call \<^verbatim>\<open>type_(payload)\<close> of \<^verbatim>\<open>_parse_reply\<close>.\<close>

fun convert :: "pytype \<Rightarrow> string \<Rightarrow> error + pyval" where
  "convert TFloat s = map_sum id PFloat (py_float s)"
| "convert TInt s = map_sum id PInt (py_int s)"
| "convert TStr s = Inr (PStr s)"

section \<open>Reply decoder\<close>

fun strip_prefix :: "string \<Rightarrow> string \<Rightarrow> string option" where
  \<comment> \<open>a literal part of a pattern: the rest of the text when the text starts with it\<close>
  "strip_prefix [] s = Some s"
| "strip_prefix (p # ps) [] = None"
| "strip_prefix (p # ps) (c # cs) = (if p = c then strip_prefix ps cs else None)"

definition at_dollar :: "string \<Rightarrow> bool" where
  \<comment> \<open>\<^verbatim>\<open>$\<close> without \<^verbatim>\<open>re.MULTILINE\<close>: the end of the text, or just before a newline that ends it\<close>
  "at_dollar rest = (rest = [] \<or> rest = [LF])"

text \<open>
  \<^verbatim>\<open>re.match(r"#BD:[0-9]+,TAG:ERR\r\n$", reply)\<close> for one of the five tags. \<^verbatim>\<open>re.match\<close>
  matches at the start of the text only. The greedy \<^verbatim>\<open>[0-9]+\<close> takes every digit that
  follows; giving a digit back never helps, since the next character of the pattern is a
  comma.
\<close>

definition match_error :: "string \<Rightarrow> string \<Rightarrow> bool" where
  "match_error tag reply =
     (case strip_prefix ''#BD:'' reply of
        None \<Rightarrow> False
      | Some r \<Rightarrow>
          takeWhile is_digit r \<noteq> [] \<and>
          (case strip_prefix ('','' @ tag @ '':ERR'' @ [CR, LF]) (dropWhile is_digit r) of
             None \<Rightarrow> False
           | Some rest \<Rightarrow> at_dollar rest))"

text \<open>
  \<^verbatim>\<open>__check_error\<close>: the exception it raises, if any. \<^verbatim>\<open>ValueError\<close> and \<^verbatim>\<open>PermissionError\<close>
  are Python's built-in exceptions.
\<close>

definition check_error :: "string \<Rightarrow> error option" where
  "check_error reply =
     (if match_error ''CMD'' reply then Some UnknownCommandError
      else if match_error ''CH'' reply then Some ChannelError
      else if match_error ''PAR'' reply then Some ParameterError
      else if match_error ''VAL'' reply then Some ValueError
      else if match_error ''LOC'' reply then Some PermissionError
      else None)"

text \<open>
  \<^verbatim>\<open>re.match(r"#BD:([0-9]{2}),CMD:OK,VAL:(.*)\r\n", text)\<close>: the two groups of the match.
  The dot matches every character but a newline, so the greedy \<^verbatim>\<open>(.*)\<close> first runs to the
  end of the first line; the \<^verbatim>\<open>\r\n\<close> after it can only match when that line ends with a
  carriage return and a newline follows, and group 2 is the line without the carriage return.
  Nothing anchors the end of the match.
\<close>

definition match_ok :: "string \<Rightarrow> (string \<times> string) option" where
  "match_ok s =
     (case strip_prefix ''#BD:'' s of
        None \<Rightarrow> None
      | Some r \<Rightarrow>
          (case r of
             d1 # d2 # r2 \<Rightarrow>
               if is_digit d1 \<and> is_digit d2 then
                 (case strip_prefix '',CMD:OK,VAL:'' r2 of
                    None \<Rightarrow> None
                  | Some r3 \<Rightarrow>
                      let line = takeWhile (\<lambda>c. c \<noteq> LF) r3;
                          after = dropWhile (\<lambda>c. c \<noteq> LF) r3
                      in if after \<noteq> [] \<and> line \<noteq> [] \<and> last line = CR
                         then Some ([d1, d2], butlast line)
                         else None)
               else None
           | _ \<Rightarrow> None))"

text \<open>
  \<^verbatim>\<open>_parse_reply\<close>. \<open>Inl\<close> is the exception raised, \<open>Inr None\<close> the result \<^verbatim>\<open>None\<close>. The
  errors are matched on the reply as received, the success pattern on \<^verbatim>\<open>reply.lstrip()\<close>.
  Only a \<^verbatim>\<open>ValueError\<close> of the conversion becomes an \<^verbatim>\<open>InvalidReplyError\<close>.
\<close>

definition parse_reply :: "string \<Rightarrow> pytype option \<Rightarrow> error + pyval option" where
  "parse_reply reply rtype =
     (case check_error reply of
        Some e \<Rightarrow> Inl e
      | None \<Rightarrow>
          (case match_ok (lstrip reply) of
             Some (bd, payload) \<Rightarrow>
               (case rtype of
                  Some t \<Rightarrow>
                    (case convert t payload of
                       Inl e \<Rightarrow> if e = ValueError then Inl InvalidReplyError else Inl e
                     | Inr v \<Rightarrow> Inr (Some v))
                | None \<Rightarrow> Inr (Some (PStr payload)))
           | None \<Rightarrow> Inr None))"

section \<open>Command encoder\<close>

text \<open>
  A value given to \<^verbatim>\<open>_command\<close>: a string, an integer or a boolean. The f-string inserts
  \<^verbatim>\<open>str(value)\<close>. A float argument, whose \<^verbatim>\<open>str\<close> is its shortest decimal that reads back
  as the same float, is not modelled.
\<close>

datatype argval = AStr string | AInt int | ABool bool

fun py_str :: "argval \<Rightarrow> string" where
  "py_str (AStr s) = s"
| "py_str (AInt i) = str_int i"
| "py_str (ABool b) = (if b then ''True'' else ''False'')"

text \<open>The lines of \<^verbatim>\<open>_command\<close> that build \<^verbatim>\<open>cmd_string\<close>.\<close>

definition encode_command ::
  "int \<Rightarrow> string \<Rightarrow> string \<Rightarrow> int option \<Rightarrow> argval option \<Rightarrow> string" where
  "encode_command module_id cmd par channel value =
     (let cmd_string = ''$BD:'' @ str_int module_id @ '',CMD:'' @ cmd;
          cmd_string = (case channel of
                          Some ch \<Rightarrow> cmd_string @ '',CH:'' @ str_int ch
                        | None \<Rightarrow> cmd_string);
          cmd_string = cmd_string @ '',PAR:'' @ par;
          cmd_string = (case value of
                          Some v \<Rightarrow> cmd_string @ '',VAL:'' @ py_str v
                        | None \<Rightarrow> cmd_string)
      in cmd_string @ [CR, LF])"

section \<open>Access serializer\<close>

text \<open>
  The serial connection as the driver sees it: whether it is open, what has been written to
  it, and the lines that \<^verbatim>\<open>readline()\<close> will return, in order. When no line is left,
  \<^verbatim>\<open>readline()\<close> returns the empty line after its timeout.
\<close>

record connection =
  is_open :: bool
  written :: "string list"
  incoming :: "string list"

text \<open>
  The fields of a \<^verbatim>\<open>Caen1471\<close> object, and the clock of \<^verbatim>\<open>time()\<close>: \<open>clock s k\<close> is the
  reading of call number \<open>k\<close>, and \<open>ticks s\<close> counts the calls made so far. The readings
  are real numbers.
\<close>

record state =
  module_id :: int
  connection :: "connection option"
  busy :: bool
  clock :: "nat \<Rightarrow> real"
  ticks :: nat

definition time :: "state \<Rightarrow> real \<times> state" where
  "time s = (clock s (ticks s), s\<lparr>ticks := Suc (ticks s)\<rparr>)"

definition readline :: "connection \<Rightarrow> string \<times> connection" where
  "readline c =
     (case incoming c of
        [] \<Rightarrow> ([], c)
      | l # ls \<Rightarrow> (l, c\<lparr>incoming := ls\<rparr>))"

text \<open>
  The loop \<^verbatim>\<open>while self.__busy: if time() - start > 5: raise TimeoutError(...)\<close>. Nothing
  in the loop changes the flag, so the loop need not end: no result is \<open>None\<close>.
\<close>

partial_function (option) wait_while_busy ::
  "real \<Rightarrow> state \<Rightarrow> ((error + unit) \<times> state) option" where
  "wait_while_busy start s =
     (if busy s then
        (if fst (time s) - start > 5 then Some (Inl TimeoutError, snd (time s))
         else wait_while_busy start (snd (time s)))
      else Some (Inr (), s))"

text \<open>
  \<^verbatim>\<open>_command\<close> from \<^verbatim>\<open>self.__busy = True\<close> on. An exception leaves the state as it is at
  the \<^verbatim>\<open>raise\<close>; only the last line before the \<^verbatim>\<open>return\<close> resets the flag.
\<close>

definition exchange ::
  "string \<Rightarrow> string \<Rightarrow> int option \<Rightarrow> argval option \<Rightarrow> pytype option \<Rightarrow> state
     \<Rightarrow> (error + pyval option) \<times> state" where
  "exchange cmd par channel value rtype s0 =
     (let s = s0\<lparr>busy := True\<rparr>
      in case connection s of
           None \<Rightarrow> (Inl ConnectionError, s)
         | Some c \<Rightarrow>
             if \<not> is_open c then (Inl ConnectionError, s)
             else
               let cmd_string = encode_command (module_id s) cmd par channel value
               in if \<not> is_ascii cmd_string then (Inl UnicodeEncodeError, s)
                  else
                    let c1 = c\<lparr>written := written c @ [cmd_string]\<rparr>;
                        (line, c2) = readline c1;
                        s1 = s\<lparr>connection := Some c2\<rparr>
                    in if \<not> is_ascii line then (Inl UnicodeDecodeError, s1)
                       else
                         (case parse_reply line rtype of
                            Inl e \<Rightarrow> (Inl e, s1)
                          | Inr response \<Rightarrow> (Inr response, s1\<lparr>busy := False\<rparr>)))"

text \<open>\<^verbatim>\<open>_command\<close>: \<open>None\<close> when the wait never ends.\<close>

definition command ::
  "string \<Rightarrow> string \<Rightarrow> int option \<Rightarrow> argval option \<Rightarrow> pytype option \<Rightarrow> state
     \<Rightarrow> ((error + pyval option) \<times> state) option" where
  "command cmd par channel value rtype s =
     (let (start, s1) = time s
      in case wait_while_busy start s1 of
           None \<Rightarrow> None
         | Some (Inl e, s2) \<Rightarrow> Some (Inl e, s2)
         | Some (Inr u, s2) \<Rightarrow> Some (exchange cmd par channel value rtype s2))"

text \<open>
  A \<^verbatim>\<open>Caen1471\<close> object as the constructor leaves it when the port opens, and
  \<^verbatim>\<open>disconnect\<close>, which closes the connection when there is one.
\<close>

definition Caen1471_init :: "int \<Rightarrow> string list \<Rightarrow> (nat \<Rightarrow> real) \<Rightarrow> state" where
  "Caen1471_init m lines clk =
     \<lparr>module_id = m,
      connection = Some \<lparr>is_open = True, written = [], incoming = lines\<rparr>,
      busy = False, clock = clk, ticks = 0\<rparr>"

definition disconnect :: "state \<Rightarrow> state" where
  "disconnect s =
     (case connection s of
        None \<Rightarrow> s
      | Some c \<Rightarrow> s\<lparr>connection := Some (c\<lparr>is_open := False\<rparr>)\<rparr>)"

section \<open>Device facade\<close>

text \<open>
  Every property of the facade runs \<^verbatim>\<open>_command\<close> once and works on its result. An
  exception of \<^verbatim>\<open>_command\<close> passes through unchanged.
\<close>

subsection \<open>Alarm status\<close>

text \<open>
  \<^verbatim>\<open>Caen1471.AlarmStatus\<close> is declared with \<^verbatim>\<open>Enum\<close>: calling the class with a value looks
  up the member that has this value and raises \<^verbatim>\<open>ValueError\<close> when there is none.
\<close>

datatype AlarmStatus =
    NO_ALARM | CHANNEL_0_ALARM | CHANNEL_1_ALARM | CHANNEL_2_ALARM | CHANNEL_3_ALARM
  | BOARD_POWER_FAIL | BOARD_OVER_POWER | BOARD_HV_CLOCK_FAIL

fun alarm_value :: "AlarmStatus \<Rightarrow> int" where
  "alarm_value NO_ALARM = 0"
| "alarm_value CHANNEL_0_ALARM = push_bit 0 1"
| "alarm_value CHANNEL_1_ALARM = push_bit 1 1"
| "alarm_value CHANNEL_2_ALARM = push_bit 2 1"
| "alarm_value CHANNEL_3_ALARM = push_bit 3 1"
| "alarm_value BOARD_POWER_FAIL = push_bit 4 1"
| "alarm_value BOARD_OVER_POWER = push_bit 5 1"
| "alarm_value BOARD_HV_CLOCK_FAIL = push_bit 6 1"

definition AlarmStatus_members :: "AlarmStatus list" where
  "AlarmStatus_members =
     [NO_ALARM, CHANNEL_0_ALARM, CHANNEL_1_ALARM, CHANNEL_2_ALARM, CHANNEL_3_ALARM,
      BOARD_POWER_FAIL, BOARD_OVER_POWER, BOARD_HV_CLOCK_FAIL]"

definition AlarmStatus_of :: "int \<Rightarrow> error + AlarmStatus" where
  \<comment> \<open>the call \<^verbatim>\<open>Caen1471.AlarmStatus(v)\<close>\<close>
  "AlarmStatus_of v =
     (case find (\<lambda>a. alarm_value a = v) AlarmStatus_members of
        Some a \<Rightarrow> Inr a
      | None \<Rightarrow> Inl ValueError)"

text \<open>
  \<^verbatim>\<open>int(x)\<close> for a result of \<^verbatim>\<open>_command\<close>: \<^verbatim>\<open>None\<close> raises \<^verbatim>\<open>TypeError\<close>, a string is
  read as a number, a float is cut towards zero.
\<close>

fun int_of_result :: "pyval option \<Rightarrow> error + int" where
  "int_of_result None = Inl TypeError"
| "int_of_result (Some (PStr s)) = py_int s"
| "int_of_result (Some (PInt i)) = Inr i"
| "int_of_result (Some (PFloat (Finite neg q))) = Inr ((if neg then - 1 else 1) * \<lfloor>q\<rfloor>)"
| "int_of_result (Some (PFloat (Infinity neg))) = Inl OverflowError"
| "int_of_result (Some (PFloat NaN)) = Inl ValueError"

definition alarm_status :: "state \<Rightarrow> ((error + AlarmStatus) \<times> state) option" where
  "alarm_status s =
     (case command ''MON'' ''BDALARM'' None None None s of
        None \<Rightarrow> None
      | Some (Inl e, s1) \<Rightarrow> Some (Inl e, s1)
      | Some (Inr r, s1) \<Rightarrow>
          (case int_of_result r of
             Inl e \<Rightarrow> Some (Inl e, s1)
           | Inr v \<Rightarrow> Some (AlarmStatus_of v, s1)))"

subsection \<open>Bus termination and polarity\<close>

definition local_bus_termination :: "state \<Rightarrow> ((error + bool) \<times> state) option" where
  "local_bus_termination s =
     (case command ''MON'' ''BDTERM'' None None None s of
        None \<Rightarrow> None
      | Some (Inl e, s1) \<Rightarrow> Some (Inl e, s1)
      | Some (Inr r, s1) \<Rightarrow> Some (Inr (r = Some (PStr ''ON'')), s1))"

text \<open>
  The text that an f-string puts in for a result of \<^verbatim>\<open>_command\<close>. Without \<^verbatim>\<open>type_\<close> the
  result is a string or \<^verbatim>\<open>None\<close>; the text of a float is not needed and has no equation.
\<close>

fun format_result :: "pyval option \<Rightarrow> string" where
  "format_result None = ''None''"
| "format_result (Some (PStr s)) = s"
| "format_result (Some (PInt i)) = str_int i"

definition polarity :: "int \<Rightarrow> state \<Rightarrow> ((error + int) \<times> state) option" where
  "polarity channel s =
     (case command ''MON'' ''POL'' (Some channel) None None s of
        None \<Rightarrow> None
      | Some (Inl e, s1) \<Rightarrow> Some (Inl e, s1)
      | Some (Inr r, s1) \<Rightarrow> Some (py_int (format_result r @ ''1''), s1))"

subsection \<open>Setters of a channel\<close>

text \<open>
  A number given to a setter: an \<^verbatim>\<open>int\<close> or a \<^verbatim>\<open>float\<close>. \<^verbatim>\<open>"{:.1f}".format(x)\<close> turns an
  \<^verbatim>\<open>int\<close> into a \<^verbatim>\<open>float\<close> first, which rounds it to 53 significant bits, ties to even, and
  raises \<^verbatim>\<open>OverflowError\<close> beyond the range of a float. The text is the float rounded to
  one digit after the point, an exact tie going to the even digit; an infinity and a
  not-a-number are spelled out.
\<close>

datatype pynum = NInt int | NFloat pyfloat

fun bit_length :: "nat \<Rightarrow> nat" where
  "bit_length n = (if n = 0 then 0 else Suc (bit_length (n div 2)))"

declare bit_length.simps [simp del]

definition round_half_even :: "rat \<Rightarrow> nat" where
  \<comment> \<open>for a magnitude: the nearest integer, the even one of two that are equally near\<close>
  "round_half_even q =
     (let f = nat \<lfloor>q\<rfloor>; r = q - of_nat f
      in if r < 1 / 2 then f
         else if 1 / 2 < r then Suc f
         else if even f then f else Suc f)"

definition float_of_nat :: "nat \<Rightarrow> error + rat" where
  "float_of_nat n =
     (if bit_length n \<le> 53 then Inr (of_nat n)
      else
        let e = bit_length n - 53;
            q = n div 2 ^ e;
            r = n mod 2 ^ e;
            half = 2 ^ (e - 1);
            q1 = (if half < r \<or> (r = half \<and> odd q) then Suc q else q)
        in if 2 ^ 1024 \<le> q1 * 2 ^ e then Inl OverflowError
           else Inr (of_nat (q1 * 2 ^ e)))"

definition fixed_1 :: "bool \<Rightarrow> rat \<Rightarrow> string" where
  "fixed_1 neg q =
     (let n = round_half_even (q * 10)
      in (if neg then ''-'' else '''') @ str_nat (n div 10) @ ''.'' @ [digit_char (n mod 10)])"

fun format_1f :: "pynum \<Rightarrow> error + string" where
  "format_1f (NInt i) =
     (case float_of_nat (nat \<bar>i\<bar>) of
        Inl e \<Rightarrow> Inl e
      | Inr q \<Rightarrow> Inr (fixed_1 (i < 0) q))"
| "format_1f (NFloat (Finite neg q)) = Inr (fixed_1 neg q)"
| "format_1f (NFloat (Infinity neg)) = Inr ((if neg then ''-'' else '''') @ ''inf'')"
| "format_1f (NFloat NaN) = Inr ''nan''"

text \<open>
  The setters of \<^verbatim>\<open>voltage\<close> and \<^verbatim>\<open>current_limit\<close> format their argument; the setters of
  \<^verbatim>\<open>ramp_down_rate\<close> and \<^verbatim>\<open>ramp_up_rate\<close> hand theirs to \<^verbatim>\<open>_command\<close> as it is.
\<close>

definition voltage_setter ::
  "int \<Rightarrow> pynum \<Rightarrow> state \<Rightarrow> ((error + pyval option) \<times> state) option" where
  "voltage_setter channel voltage s =
     (case format_1f voltage of
        Inl e \<Rightarrow> Some (Inl e, s)
      | Inr v \<Rightarrow> command ''SET'' ''VSET'' (Some channel) (Some (AStr v)) None s)"

definition current_limit_setter ::
  "int \<Rightarrow> pynum \<Rightarrow> state \<Rightarrow> ((error + pyval option) \<times> state) option" where
  "current_limit_setter channel current s =
     (case format_1f current of
        Inl e \<Rightarrow> Some (Inl e, s)
      | Inr v \<Rightarrow> command ''SET'' ''ISET'' (Some channel) (Some (AStr v)) None s)"

definition ramp_down_rate_setter ::
  "int \<Rightarrow> argval option \<Rightarrow> state \<Rightarrow> ((error + pyval option) \<times> state) option" where
  "ramp_down_rate_setter channel rate s = command ''SET'' ''RDW'' (Some channel) rate None s"

definition ramp_up_rate_setter ::
  "int \<Rightarrow> argval option \<Rightarrow> state \<Rightarrow> ((error + pyval option) \<times> state) option" where
  "ramp_up_rate_setter channel rate s = command ''SET'' ''RUP'' (Some channel) rate None s"

section \<open>The documented grammar of a request\<close>

text \<open>
  The request line as the wire protocol documents it:
  \<^verbatim>\<open>$BD:<module_id>,CMD:{MON|SET}[,CH:<channel>],PAR:<mnemonic>[,VAL:<value>]\<close> and a
  carriage return and a newline after it. A reader of this grammar takes the digits of the
  module number, one of the two operations, the digits of the channel when the field is
  there, the mnemonic up to the next delimiter and the value up to the end of the line.
\<close>

record request =
  req_module :: nat
  req_operation :: string
  req_channel :: "nat option"
  req_parameter :: string
  req_value :: "string option"

definition is_delimiter :: "char \<Rightarrow> bool" where
  "is_delimiter c = (c = CHR '','' \<or> c = CHR '':'' \<or> c = CR \<or> c = LF)"

definition read_number :: "string \<Rightarrow> (nat \<times> string) option" where
  "read_number s =
     (if takeWhile is_digit s = [] then None
      else Some (nat_of_digits (takeWhile is_digit s), dropWhile is_digit s))"

definition read_operation :: "string \<Rightarrow> (string \<times> string) option" where
  "read_operation s =
     (case strip_prefix ''MON'' s of
        Some r \<Rightarrow> Some (''MON'', r)
      | None \<Rightarrow>
          (case strip_prefix ''SET'' s of
             Some r \<Rightarrow> Some (''SET'', r)
           | None \<Rightarrow> None))"

definition read_channel :: "string \<Rightarrow> (nat option \<times> string) option" where
  "read_channel s =
     (case strip_prefix '',CH:'' s of
        None \<Rightarrow> Some (None, s)
      | Some r \<Rightarrow>
          (case read_number r of
             None \<Rightarrow> None
           | Some (ch, r1) \<Rightarrow> Some (Some ch, r1)))"

definition read_value :: "string \<Rightarrow> string option \<times> string" where
  "read_value s =
     (case strip_prefix '',VAL:'' s of
        None \<Rightarrow> (None, s)
      | Some r \<Rightarrow>
          (Some (takeWhile (\<lambda>c. \<not> is_delimiter c) r), dropWhile (\<lambda>c. \<not> is_delimiter c) r))"

definition match_request :: "string \<Rightarrow> request option" where
  "match_request line =
     (case strip_prefix ''$BD:'' line of
        None \<Rightarrow> None
      | Some r0 \<Rightarrow>
     (case read_number r0 of
        None \<Rightarrow> None
      | Some (m, r1) \<Rightarrow>
     (case strip_prefix '',CMD:'' r1 of
        None \<Rightarrow> None
      | Some r2 \<Rightarrow>
     (case read_operation r2 of
        None \<Rightarrow> None
      | Some (operation, r3) \<Rightarrow>
     (case read_channel r3 of
        None \<Rightarrow> None
      | Some (ch, r4) \<Rightarrow>
     (case strip_prefix '',PAR:'' r4 of
        None \<Rightarrow> None
      | Some r5 \<Rightarrow>
          let par = takeWhile (\<lambda>c. \<not> is_delimiter c) r5;
              (v, r6) = read_value (dropWhile (\<lambda>c. \<not> is_delimiter c) r5)
          in if r6 = [CR, LF]
             then Some \<lparr>req_module = m, req_operation = operation, req_channel = ch,
                         req_parameter = par, req_value = v\<rparr>
             else None))))))"

section \<open>A number with one decimal digit\<close>

text \<open>
  The texts that are a number formatted with exactly one decimal digit: an optional minus
  sign, at least one digit, a point and one digit. The numbers that have such a text are the
  finite ones, an \<^verbatim>\<open>int\<close> or a \<^verbatim>\<open>float\<close> that is neither an infinity nor a not-a-number.
\<close>

definition one_decimal :: "string \<Rightarrow> bool" where
  "one_decimal s =
     (let body = (case s of [] \<Rightarrow> [] | c # cs \<Rightarrow> if c = CHR ''-'' then cs else s);
          rest = dropWhile is_digit body
      in takeWhile is_digit body \<noteq> [] \<and> length rest = 2 \<and> hd rest = CHR ''.'' \<and> is_digit (last rest))"

definition is_finite_number :: "pynum \<Rightarrow> bool" where
  "is_finite_number x =
     (case x of NInt i \<Rightarrow> True | NFloat (Finite neg q) \<Rightarrow> True | NFloat _ \<Rightarrow> False)"

section \<open>Properties of the status decoding\<close>

lemma and_single_bit_int: "((x::int) AND push_bit k 1 \<noteq> 0) = bit x k"
  by (simp add: and_exp_eq_0_iff_not_bit)

lemma parse_state_loop_Cons:
  "parse_state_loop st (s # ss) =
     (if s \<noteq> OFF \<and> bit st (nat (status_value s - 1)) then s else parse_state_loop st ss)"
  using and_single_bit_int [of st "nat (status_value s - 1)"]
  by (simp del: push_bit_of_1)

lemma parse_state_loop_find:
  "parse_state_loop st ss =
     (case find (\<lambda>s. s \<noteq> OFF \<and> bit st (nat (status_value s - 1))) ss of
        Some s \<Rightarrow> s | None \<Rightarrow> OFF)"
  by (induction ss) (simp_all add: parse_state_loop_Cons del: parse_state_loop.simps(2))

lemma parse_state_loop_OFF:
  "(parse_state_loop st ss = OFF) =
     (\<forall>s \<in> set ss. s \<noteq> OFF \<longrightarrow> \<not> bit st (nat (status_value s - 1)))"
  by (induction ss) (auto simp add: parse_state_loop_Cons simp del: parse_state_loop.simps(2))

lemma parse_state_loop_split:
  "parse_state_loop st ss \<noteq> OFF \<Longrightarrow>
     \<exists>pre post. ss = pre @ parse_state_loop st ss # post
        \<and> (\<forall>t \<in> set pre. t \<noteq> OFF \<longrightarrow> \<not> bit st (nat (status_value t - 1)))
        \<and> bit st (nat (status_value (parse_state_loop st ss) - 1))"
proof (induction ss)
  case Nil
  then show ?case by simp
next
  case (Cons s ss)
  show ?case
  proof (cases "s \<noteq> OFF \<and> bit st (nat (status_value s - 1))")
    case True
    then have "parse_state_loop st (s # ss) = s"
      by (simp add: parse_state_loop_Cons del: parse_state_loop.simps(2))
    with True show ?thesis by (intro exI [of _ "[]"] exI [of _ ss]) simp
  next
    case False
    then have eq: "parse_state_loop st (s # ss) = parse_state_loop st ss"
      by (auto simp add: parse_state_loop_Cons simp del: parse_state_loop.simps(2))
    with Cons.prems have "parse_state_loop st ss \<noteq> OFF" by simp
    from Cons.IH [OF this] obtain pre post where
      h: "ss = pre @ parse_state_loop st ss # post"
         "\<forall>t \<in> set pre. t \<noteq> OFF \<longrightarrow> \<not> bit st (nat (status_value t - 1))"
         "bit st (nat (status_value (parse_state_loop st ss) - 1))"
      by blast
    have "s # ss = (s # pre) @ parse_state_loop st (s # ss) # post"
      using h(1) eq by simp
    moreover have "\<forall>t \<in> set (s # pre). t \<noteq> OFF \<longrightarrow> \<not> bit st (nat (status_value t - 1))"
      using h(2) False by auto
    moreover have "bit st (nat (status_value (parse_state_loop st (s # ss)) - 1))"
      using h(3) eq by simp
    ultimately show ?thesis by blast
  qed
qed

lemma members_all: "s \<in> set (rev ChannelStatus_members)"
  by (cases s) (simp_all add: ChannelStatus_members_def)

lemma members_decreasing:
  "sorted_wrt (\<lambda>a b. status_value b < status_value a) (rev ChannelStatus_members)"
  by (simp add: ChannelStatus_members_def)

lemma status_value_inj: "status_value a = status_value b \<Longrightarrow> a = b"
  by (cases a; cases b) simp_all

lemma parse_state_top_bit:
  assumes "\<exists>s. s \<noteq> OFF \<and> bit st (nat (status_value s - 1))"
  shows "parse_state st \<noteq> OFF \<and> bit st (nat (status_value (parse_state st) - 1)) \<and>
         (\<forall>t. status_value (parse_state st) < status_value t \<longrightarrow>
              \<not> bit st (nat (status_value t - 1)))"
proof -
  let ?r = "parse_state st"
  have a: "?r \<noteq> OFF"
    using assms members_all by (auto simp add: parse_state_def parse_state_loop_OFF)
  then obtain pre post where
    h: "rev ChannelStatus_members = pre @ ?r # post"
       "\<forall>t \<in> set pre. t \<noteq> OFF \<longrightarrow> \<not> bit st (nat (status_value t - 1))"
       "bit st (nat (status_value ?r - 1))"
    using parse_state_loop_split [of st "rev ChannelStatus_members"]
    unfolding parse_state_def by blast
  have post: "\<forall>t \<in> set post. status_value t < status_value ?r"
    using members_decreasing unfolding h(1) by (simp add: sorted_wrt_append)
  have c: "\<not> bit st (nat (status_value t - 1))" if lt: "status_value ?r < status_value t" for t
  proof -
    have "t \<in> set (pre @ ?r # post)" using members_all [of t] h(1) by simp
    moreover have "t \<noteq> ?r" using lt by auto
    moreover have "t \<notin> set post" using post lt by auto
    ultimately have "t \<in> set pre" by simp
    moreover have "t \<noteq> OFF" using lt a by (cases ?r) auto
    ultimately show ?thesis using h(2) by blast
  qed
  from a h(3) c show ?thesis by blast
qed

lemma parse_state_none:
  assumes "\<not> (\<exists>s. s \<noteq> OFF \<and> bit st (nat (status_value s - 1)))"
  shows "parse_state st = OFF"
  using assms by (auto simp add: parse_state_def parse_state_loop_OFF)

text \<open>
  Claim C6. For every non-negative integer input, \<^verbatim>\<open>_parse_state\<close> scans the statuses other
  than \<^verbatim>\<open>OFF\<close> in reverse declaration order, \<^verbatim>\<open>NO_CALIBRATION\<close> first, and returns the first
  status \<open>s\<close> whose bit \<open>s.value - 1\<close> is set, and \<^verbatim>\<open>OFF\<close> when no such bit is set: the
  result is the status of the highest set bit. Input 0 yields \<^verbatim>\<open>OFF\<close>, and an input with the
  bits of \<^verbatim>\<open>OVER_CURRENT\<close> and \<^verbatim>\<open>TRIPPED\<close> set (and no bit of a later status) yields
  \<^verbatim>\<open>TRIPPED\<close>.
\<close>

theorem parse_state_priority:
  assumes "0 \<le> state"
  shows "parse_state state =
           (case find (\<lambda>s. s \<noteq> OFF \<and> bit state (nat (status_value s - 1)))
                   (rev ChannelStatus_members) of
              Some s \<Rightarrow> s | None \<Rightarrow> OFF)
       \<and> (if \<exists>s. s \<noteq> OFF \<and> bit state (nat (status_value s - 1))
          then parse_state state \<noteq> OFF
             \<and> bit state (nat (status_value (parse_state state) - 1))
             \<and> (\<forall>t. status_value (parse_state state) < status_value t \<longrightarrow>
                    \<not> bit state (nat (status_value t - 1)))
          else parse_state state = OFF)
       \<and> parse_state 0 = OFF
       \<and> (bit state (nat (status_value OVER_CURRENT - 1))
            \<and> bit state (nat (status_value TRIPPED - 1))
            \<and> (\<forall>t. status_value TRIPPED < status_value t \<longrightarrow>
                    \<not> bit state (nat (status_value t - 1)))
          \<longrightarrow> parse_state state = TRIPPED)"
proof -
  have find_form: "parse_state state =
           (case find (\<lambda>s. s \<noteq> OFF \<and> bit state (nat (status_value s - 1)))
                   (rev ChannelStatus_members) of
              Some s \<Rightarrow> s | None \<Rightarrow> OFF)"
    by (simp only: parse_state_def parse_state_loop_find)
  have zero: "parse_state 0 = OFF"
    by (rule parse_state_none) simp
  have tripped: "parse_state state = TRIPPED"
    if h: "bit state (nat (status_value TRIPPED - 1))"
      "\<forall>t. status_value TRIPPED < status_value t \<longrightarrow> \<not> bit state (nat (status_value t - 1))"
  proof -
    have ex: "\<exists>s. s \<noteq> OFF \<and> bit state (nat (status_value s - 1))"
      using h(1) by (intro exI [of _ TRIPPED]) simp
    note top = parse_state_top_bit [OF ex]
    have "\<not> status_value TRIPPED < status_value (parse_state state)"
      using top h(2) by blast
    moreover have "\<not> status_value (parse_state state) < status_value TRIPPED"
      using top h(1) by blast
    ultimately have "status_value (parse_state state) = status_value TRIPPED" by linarith
    then show ?thesis by (rule status_value_inj)
  qed
  show ?thesis
  proof (intro conjI)
    show "parse_state state =
           (case find (\<lambda>s. s \<noteq> OFF \<and> bit state (nat (status_value s - 1)))
                   (rev ChannelStatus_members) of
              Some s \<Rightarrow> s | None \<Rightarrow> OFF)" by (rule find_form)
    show "if \<exists>s. s \<noteq> OFF \<and> bit state (nat (status_value s - 1))
          then parse_state state \<noteq> OFF
             \<and> bit state (nat (status_value (parse_state state) - 1))
             \<and> (\<forall>t. status_value (parse_state state) < status_value t \<longrightarrow>
                    \<not> bit state (nat (status_value t - 1)))
          else parse_state state = OFF"
      using parse_state_top_bit [of state] parse_state_none [of state]
      by (cases "\<exists>s. s \<noteq> OFF \<and> bit state (nat (status_value s - 1))") simp_all
    show "parse_state 0 = OFF" by (rule zero)
    show "bit state (nat (status_value OVER_CURRENT - 1))
            \<and> bit state (nat (status_value TRIPPED - 1))
            \<and> (\<forall>t. status_value TRIPPED < status_value t \<longrightarrow>
                    \<not> bit state (nat (status_value t - 1)))
          \<longrightarrow> parse_state state = TRIPPED"
      using tripped by blast
  qed
qed

theorem parse_state_priority_witness:
  "(0::int) \<le> 136 \<and> bit (136::int) (nat (status_value OVER_CURRENT - 1))
     \<and> bit (136::int) (nat (status_value TRIPPED - 1)) \<and> parse_state 136 = TRIPPED"
proof -
  have b3: "bit (136::int) (nat (status_value OVER_CURRENT - 1))" by simp
  have b7: "bit (136::int) (nat (status_value TRIPPED - 1))" by simp
  have hi: "\<forall>t. status_value TRIPPED < status_value t \<longrightarrow>
              \<not> bit (136::int) (nat (status_value t - 1))"
  proof (intro allI impI)
    fix t assume "status_value TRIPPED < status_value t"
    then show "\<not> bit (136::int) (nat (status_value t - 1))" by (cases t) simp_all
  qed
  have "(0::int) \<le> 136" by simp
  from parse_state_priority [OF this] have
    "bit (136::int) (nat (status_value OVER_CURRENT - 1))
       \<and> bit (136::int) (nat (status_value TRIPPED - 1))
       \<and> (\<forall>t. status_value TRIPPED < status_value t \<longrightarrow>
              \<not> bit (136::int) (nat (status_value t - 1)))
     \<longrightarrow> parse_state 136 = TRIPPED" by blast
  with b3 b7 hi have "parse_state 136 = TRIPPED" by blast
  with b3 b7 show ?thesis by simp
qed

section \<open>Properties of the decimal digits\<close>

lemma of_char_digit_char: "d < 10 \<Longrightarrow> (of_char (digit_char d) :: nat) = 48 + d"
  by (simp add: digit_char_def)

lemma digit_char_numerals:
  "digit_char 0 = CHR ''0''" "digit_char 1 = CHR ''1''" "digit_char 2 = CHR ''2''"
  "digit_char 3 = CHR ''3''" "digit_char 4 = CHR ''4''" "digit_char 5 = CHR ''5''"
  "digit_char 6 = CHR ''6''" "digit_char 7 = CHR ''7''" "digit_char 8 = CHR ''8''"
  "digit_char 9 = CHR ''9''"
  by (rule of_char_eqI [where ?'a = nat], simp add: of_char_digit_char)+

lemma is_digit_digit_char: "d < 10 \<Longrightarrow> is_digit (digit_char d)"
  by (simp add: is_digit_def of_char_digit_char)

lemma digit_val_digit_char: "d < 10 \<Longrightarrow> digit_val (digit_char d) = d"
  by (simp add: digit_val_def of_char_digit_char)

lemma str_nat_digit: "n < 10 \<Longrightarrow> str_nat n = [digit_char n]"
  by (simp add: str_nat.simps)

lemma str_nat_step: "\<not> n < 10 \<Longrightarrow> str_nat n = str_nat (n div 10) @ [digit_char (n mod 10)]"
  by (subst str_nat.simps) simp

lemma str_nat_digits: "\<forall>c \<in> set (str_nat n). is_digit c"
proof (induction n rule: str_nat.induct)
  case (1 n)
  show ?case
  proof (cases "n < 10")
    case True
    then show ?thesis by (simp add: str_nat_digit is_digit_digit_char)
  next
    case False
    with 1 show ?thesis by (simp add: str_nat_step is_digit_digit_char)
  qed
qed

lemma str_nat_not_Nil: "str_nat n \<noteq> []"
  by (subst str_nat.simps) simp

lemma nat_of_digits_snoc: "nat_of_digits (ds @ [c]) = 10 * nat_of_digits ds + digit_val c"
  by (simp add: nat_of_digits_def)

lemma nat_of_digits_str_nat: "nat_of_digits (str_nat n) = n"
proof (induction n rule: str_nat.induct)
  case (1 n)
  show ?case
  proof (cases "n < 10")
    case True
    then show ?thesis by (simp add: str_nat_digit nat_of_digits_def digit_val_digit_char)
  next
    case False
    with 1 show ?thesis by (simp add: str_nat_step nat_of_digits_snoc digit_val_digit_char)
  qed
qed

lemma str_int_0: "str_int 0 = ''0''"
  by (simp add: str_int_def str_nat_digit digit_char_numerals)

section \<open>Properties of the reply decoder\<close>

lemma CR_neq_LF: "CR \<noteq> LF" "LF \<noteq> CR"
  by (simp_all add: CR_def LF_def)

lemma is_digit_comma: "\<not> is_digit CHR '',''"
  by (simp add: is_digit_def)

lemma is_space_hash: "is_space c \<Longrightarrow> c \<noteq> CHR ''#''"
  by (auto simp add: is_space_def Let_def)

lemma lstrip_spaces: "\<forall>c \<in> set ws. is_space c \<Longrightarrow> lstrip (ws @ CHR ''#'' # s) = CHR ''#'' # s"
proof -
  assume a: "\<forall>c \<in> set ws. is_space c"
  have "\<not> is_space CHR ''#''" using is_space_hash by blast
  with a show ?thesis by (simp add: lstrip_def dropWhile_append2)
qed

lemma match_error_spaces:
  "ws \<noteq> [] \<Longrightarrow> \<forall>c \<in> set ws. is_space c \<Longrightarrow> \<not> match_error tag (ws @ s)"
  by (cases ws) (auto simp add: match_error_def dest: is_space_hash)

lemma check_error_spaces:
  "ws \<noteq> [] \<Longrightarrow> \<forall>c \<in> set ws. is_space c \<Longrightarrow> check_error (ws @ s) = None"
  by (simp add: check_error_def match_error_spaces)

lemma match_error_ok:
  assumes "is_digit d1" "is_digit d2" "tag \<in> {''CMD'', ''CH'', ''PAR'', ''VAL'', ''LOC''}"
  shows "\<not> match_error tag (''#BD:'' @ [d1, d2] @ '',CMD:OK,VAL:'' @ s)"
  using assms by (auto simp add: match_error_def is_digit_comma)

lemma check_error_ok:
  assumes "is_digit d1" "is_digit d2"
  shows "check_error (''#BD:'' @ [d1, d2] @ '',CMD:OK,VAL:'' @ s) = None"
  unfolding check_error_def using match_error_ok [OF assms] by simp

lemma match_ok_success:
  assumes "is_digit d1" "is_digit d2" "LF \<notin> set payload"
  shows "match_ok (''#BD:'' @ [d1, d2] @ '',CMD:OK,VAL:'' @ payload @ [CR, LF] @ rest)
           = Some ([d1, d2], payload)"
proof -
  have t: "takeWhile (\<lambda>c. c \<noteq> LF) (payload @ CR # LF # rest) = payload @ [CR]"
    using assms(3) by (induction payload) (auto simp add: CR_neq_LF)
  have d: "dropWhile (\<lambda>c. c \<noteq> LF) (payload @ CR # LF # rest) = LF # rest"
    using assms(3) by (induction payload) (auto simp add: CR_neq_LF)
  show ?thesis using assms(1,2) by (simp add: match_ok_def t d)
qed

lemma parse_reply_ok:
  assumes "is_digit d1" "is_digit d2" "LF \<notin> set payload" "\<forall>c \<in> set ws. is_space c"
  shows "parse_reply (ws @ ''#BD:'' @ [d1, d2] @ '',CMD:OK,VAL:'' @ payload @ [CR, LF] @ rest) rtype =
           (case rtype of
              None \<Rightarrow> Inr (Some (PStr payload))
            | Some t \<Rightarrow>
                (case convert t payload of
                   Inl e \<Rightarrow> if e = ValueError then Inl InvalidReplyError else Inl e
                 | Inr v \<Rightarrow> Inr (Some v)))"
proof -
  let ?body = "''#BD:'' @ [d1, d2] @ '',CMD:OK,VAL:'' @ payload @ [CR, LF] @ rest"
  have c: "check_error (ws @ ?body) = None"
  proof (cases "ws = []")
    case True
    then show ?thesis using check_error_ok [OF assms(1,2)] by simp
  next
    case False
    then show ?thesis using assms(4) by (rule check_error_spaces)
  qed
  have l: "lstrip (ws @ ?body) = ?body"
    using lstrip_spaces [OF assms(4)] by simp
  have m: "match_ok ?body = Some ([d1, d2], payload)"
    using assms(1,2,3) by (rule match_ok_success)
  show ?thesis
    unfolding parse_reply_def c l m by (simp split: option.splits)
qed







text \<open>
  Claim C3. The error frames are classified before the success pattern and in the order
  \<^verbatim>\<open>CMD\<close>, \<^verbatim>\<open>CH\<close>, \<^verbatim>\<open>PAR\<close>, \<^verbatim>\<open>VAL\<close>, \<^verbatim>\<open>LOC\<close>, but on the reply as received: leading
  whitespace is trimmed for the success pattern only. An error frame after a blank is not
  recognised and decodes to no value, while the same frame without the blank raises
  \<^verbatim>\<open>UnknownCommandError\<close> and a success frame after a blank is accepted.
\<close>

theorem check_error_not_trimmed:
  "parse_reply ('' #BD:02,CMD:ERR'' @ [CR, LF]) None = Inr None
   \<and> parse_reply (lstrip ('' #BD:02,CMD:ERR'' @ [CR, LF])) None = Inl UnknownCommandError
   \<and> parse_reply ('' #BD:02,CMD:OK,VAL:7'' @ [CR, LF]) None = Inr (Some (PStr ''7''))
   \<and> parse_reply (''#BD:02,PAR:ERR'' @ [CR, LF]) None = Inl ParameterError
   \<and> parse_reply (''#BD:02,LOC:ERR'' @ [CR, LF]) None = Inl PermissionError"
  by (simp add: parse_reply_def check_error_def match_error_def match_ok_def lstrip_def
      is_space_def is_digit_def at_dollar_def CR_def LF_def Let_def)

section \<open>Properties of the access serializer\<close>

lemma wait_while_busy_free: "\<not> busy s \<Longrightarrow> wait_while_busy start s = Some (Inr (), s)"
  by (subst wait_while_busy.simps) simp

lemma wait_while_busy_expired:
  "busy s \<Longrightarrow> 5 < clock s (ticks s) - start \<Longrightarrow>
   wait_while_busy start s = Some (Inl TimeoutError, s\<lparr>ticks := Suc (ticks s)\<rparr>)"
  by (subst wait_while_busy.simps) (simp add: time_def)

lemma wait_while_busy_again:
  "busy s \<Longrightarrow> \<not> 5 < clock s (ticks s) - start \<Longrightarrow>
   wait_while_busy start s = wait_while_busy start (s\<lparr>ticks := Suc (ticks s)\<rparr>)"
  by (subst wait_while_busy.simps) (simp add: time_def)

lemma wait_while_busy_timeout:
  assumes "busy s"
    and "\<forall>j < n. clock s (ticks s + j) - start \<le> 5"
    and "5 < clock s (ticks s + n) - start"
  shows "wait_while_busy start s = Some (Inl TimeoutError, s\<lparr>ticks := Suc (ticks s + n)\<rparr>)"
  using assms
proof (induction n arbitrary: s)
  case 0
  then show ?case by (simp add: wait_while_busy_expired)
next
  case (Suc n)
  let ?s = "s\<lparr>ticks := Suc (ticks s)\<rparr>"
  from Suc.prems(2) have first: "\<not> 5 < clock s (ticks s) - start"
    by (auto dest: spec [of _ 0])
  have "busy ?s"
    using Suc.prems(1) by simp
  moreover have "\<forall>j < n. clock ?s (ticks ?s + j) - start \<le> 5"
    using Suc.prems(2) by (auto dest: spec [of _ "Suc j" for j])
  moreover have "5 < clock ?s (ticks ?s + n) - start"
    using Suc.prems(3) by simp
  ultimately have "wait_while_busy start ?s = Some (Inl TimeoutError, ?s\<lparr>ticks := Suc (ticks ?s + n)\<rparr>)"
    by (rule Suc.IH)
  then show ?case
    using Suc.prems(1) first by (simp add: wait_while_busy_again)
qed

lemma command_free:
  "\<not> busy s \<Longrightarrow>
   command cmd par channel v rtype s = Some (exchange cmd par channel v rtype (s\<lparr>ticks := Suc (ticks s)\<rparr>))"
  by (simp add: command_def time_def wait_while_busy_free)

lemma command_busy:
  assumes "busy s"
    and "\<forall>j < n. clock s (Suc (ticks s + j)) - clock s (ticks s) \<le> 5"
    and "5 < clock s (Suc (ticks s + n)) - clock s (ticks s)"
  shows "command cmd par channel v rtype s
           = Some (Inl TimeoutError, s\<lparr>ticks := Suc (Suc (ticks s + n))\<rparr>)"
proof -
  let ?s = "s\<lparr>ticks := Suc (ticks s)\<rparr>"
  have "wait_while_busy (clock s (ticks s)) ?s
          = Some (Inl TimeoutError, ?s\<lparr>ticks := Suc (ticks ?s + n)\<rparr>)"
    using assms by (intro wait_while_busy_timeout) simp_all
  then show ?thesis
    by (simp add: command_def time_def)
qed

lemma first_exceeding:
  fixes P :: "nat \<Rightarrow> bool"
  assumes "P m"
  shows "\<exists>k \<le> m. P k \<and> (\<forall>j < k. \<not> P j)"
  using assms
proof (induction m rule: less_induct)
  case (less m)
  show ?case
  proof (cases "\<exists>j < m. P j")
    case True
    then obtain j where "j < m" "P j" by blast
    with less.IH [of j] obtain k where "k \<le> j" "P k" "\<forall>i < k. \<not> P i" by blast
    with \<open>j < m\<close> show ?thesis by (intro exI [of _ k]) simp
  next
    case False
    with less.prems show ?thesis by (intro exI [of _ m]) simp
  qed
qed

lemma exchange_reply:
  assumes "connection s = Some c" and "is_open c" and "incoming c = l # ls"
    and "is_ascii (encode_command (module_id s) cmd par channel v)" and "is_ascii l"
  shows "exchange cmd par channel v rtype s =
           (case parse_reply l rtype of
              Inl e \<Rightarrow>
                (Inl e,
                 s\<lparr>busy := True,
                   connection := Some (c\<lparr>written := written c @ [encode_command (module_id s) cmd par channel v],
                                         incoming := ls\<rparr>)\<rparr>)
            | Inr r \<Rightarrow>
                (Inr r,
                 s\<lparr>busy := False,
                   connection := Some (c\<lparr>written := written c @ [encode_command (module_id s) cmd par channel v],
                                         incoming := ls\<rparr>)\<rparr>))"
  using assms by (simp add: exchange_def readline_def Let_def split: sum.splits)

lemma exchange_closed:
  assumes "connection s = Some c" and "\<not> is_open c"
  shows "exchange cmd par channel v rtype s = (Inl ConnectionError, s\<lparr>busy := True\<rparr>)"
  using assms by (simp add: exchange_def Let_def)

lemma encode_MON_BDNAME: "encode_command 0 ''MON'' ''BDNAME'' None None = ''$BD:0,CMD:MON,PAR:BDNAME'' @ [CR, LF]"
  by (simp add: encode_command_def str_int_0)

lemma is_ascii_Cons: "is_ascii (c # cs) = ((of_char c :: nat) < 128 \<and> is_ascii cs)"
  by (simp add: is_ascii_def)

lemma is_ascii_Nil: "is_ascii []"
  by (simp add: is_ascii_def)

lemma is_ascii_BDNAME: "is_ascii (''$BD:0,CMD:MON,PAR:BDNAME'' @ [CR, LF])"
  by (simp add: is_ascii_def CR_def LF_def)

lemma parse_reply_CMD_ERR: "parse_reply (''#BD:00,CMD:ERR'' @ [CR, LF]) None = Inl UnknownCommandError"
  by (simp add: parse_reply_def check_error_def match_error_def is_digit_def at_dollar_def)

text \<open>
  Claim C4. When the flag is set at the call and stays set, and some later reading of the
  clock is more than five seconds after the first one, \<^verbatim>\<open>_command\<close> raises \<^verbatim>\<open>TimeoutError\<close>
  at the first such reading \<open>k\<close>. The object is then as it was but for the count of clock
  readings: nothing was written to the connection.
\<close>

theorem command_timeout:
  assumes "busy s" and "ticks s < m" and "5 < clock s m - clock s (ticks s)"
  shows "\<exists>k. ticks s < k \<and> k \<le> m \<and> 5 < clock s k - clock s (ticks s)
           \<and> (\<forall>j. ticks s < j \<and> j < k \<longrightarrow> clock s j - clock s (ticks s) \<le> 5)
           \<and> command cmd par channel val rtype s = Some (Inl TimeoutError, s\<lparr>ticks := Suc k\<rparr>)
           \<and> connection (s\<lparr>ticks := Suc k\<rparr>) = connection s"
proof -
  let ?P = "\<lambda>j. 5 < clock s (Suc (ticks s + j)) - clock s (ticks s)"
  from assms(2) obtain d where m: "m = Suc (ticks s + d)"
    by (metis less_iff_Suc_add)
  with assms(3) have "?P d" by simp
  then obtain n where n: "n \<le> d" "?P n" "\<forall>j < n. \<not> ?P j"
    using first_exceeding [of ?P d] by blast
  let ?k = "Suc (ticks s + n)"
  have before: "clock s j - clock s (ticks s) \<le> 5" if "ticks s < j" "j < ?k" for j
  proof -
    from that obtain i where "j = Suc (ticks s + i)" "i < n"
      by (metis less_iff_Suc_add Suc_less_eq nat_add_left_cancel_less)
    with n(3) show ?thesis by (auto simp add: not_less)
  qed
  have "command cmd par channel val rtype s = Some (Inl TimeoutError, s\<lparr>ticks := Suc ?k\<rparr>)"
    using assms(1) n(2,3) by (intro command_busy) (auto simp add: not_less)
  with n(1,2) m before show ?thesis
    by (intro exI [of _ ?k]) auto
qed

theorem command_timeout_witness:
  "busy (Caen1471_init 0 [] real\<lparr>busy := True\<rparr>)
   \<and> ticks (Caen1471_init 0 [] real\<lparr>busy := True\<rparr>) < 9
   \<and> 5 < clock (Caen1471_init 0 [] real\<lparr>busy := True\<rparr>) 9
           - clock (Caen1471_init 0 [] real\<lparr>busy := True\<rparr>) (ticks (Caen1471_init 0 [] real\<lparr>busy := True\<rparr>))
   \<and> command ''MON'' ''VSET'' (Some 0) None (Some TFloat) (Caen1471_init 0 [] real\<lparr>busy := True\<rparr>)
         = Some (Inl TimeoutError, Caen1471_init 0 [] real\<lparr>busy := True, ticks := 7\<rparr>)"
proof -
  let ?s = "Caen1471_init 0 [] real\<lparr>busy := True\<rparr>"
  have s: "busy ?s" "ticks ?s = 0" "clock ?s = real"
    by (simp_all add: Caen1471_init_def)
  from command_timeout [of ?s 9 "''MON''" "''VSET''" "Some 0" None "Some TFloat"]
  obtain k where k: "5 < real k" "\<forall>j. 0 < j \<and> j < k \<longrightarrow> real j \<le> 5"
    and c: "command ''MON'' ''VSET'' (Some 0) None (Some TFloat) ?s
              = Some (Inl TimeoutError, ?s\<lparr>ticks := Suc k\<rparr>)"
    by (auto simp add: s)
  from k(2) have "\<not> 6 < k"
    by (auto dest: spec [of _ 6])
  with k(1) have "k = 6"
    by simp
  with c show ?thesis
    by (simp add: s)
qed

text \<open>
  Claim C1. The flag is reset on the last line before the \<^verbatim>\<open>return\<close> only. On a fresh object
  whose device answers \<^verbatim>\<open>#BD:00,CMD:ERR\<close>, with a clock that advances one second per reading,
  the first call raises \<^verbatim>\<open>UnknownCommandError\<close> and leaves the flag set; the next call waits
  and raises \<^verbatim>\<open>TimeoutError\<close> without reading the answer that is ready. On a closed
  connection the call raises \<^verbatim>\<open>ConnectionError\<close> and leaves the flag set as well.
\<close>

theorem busy_not_released:
  "command ''MON'' ''BDNAME'' None None None
       (Caen1471_init 0 [''#BD:00,CMD:ERR'' @ [CR, LF], ''#BD:00,CMD:OK,VAL:N1471'' @ [CR, LF]] real)
     = Some (Inl UnknownCommandError,
         \<lparr>module_id = 0,
          connection = Some \<lparr>is_open = True,
                              written = [''$BD:0,CMD:MON,PAR:BDNAME'' @ [CR, LF]],
                              incoming = [''#BD:00,CMD:OK,VAL:N1471'' @ [CR, LF]]\<rparr>,
          busy = True, clock = real, ticks = 1\<rparr>)
   \<and> command ''MON'' ''BDNAME'' None None None
       \<lparr>module_id = 0,
        connection = Some \<lparr>is_open = True,
                            written = [''$BD:0,CMD:MON,PAR:BDNAME'' @ [CR, LF]],
                            incoming = [''#BD:00,CMD:OK,VAL:N1471'' @ [CR, LF]]\<rparr>,
        busy = True, clock = real, ticks = 1\<rparr>
     = Some (Inl TimeoutError,
         \<lparr>module_id = 0,
          connection = Some \<lparr>is_open = True,
                              written = [''$BD:0,CMD:MON,PAR:BDNAME'' @ [CR, LF]],
                              incoming = [''#BD:00,CMD:OK,VAL:N1471'' @ [CR, LF]]\<rparr>,
          busy = True, clock = real, ticks = 8\<rparr>)
   \<and> command ''MON'' ''BDNAME'' None None None (disconnect (Caen1471_init 0 [] real))
     = Some (Inl ConnectionError,
         \<lparr>module_id = 0,
          connection = Some \<lparr>is_open = False, written = [], incoming = []\<rparr>,
          busy = True, clock = real, ticks = 1\<rparr>)"
proof -
  let ?ok = "''#BD:00,CMD:OK,VAL:N1471'' @ [CR, LF]"
  let ?s0 = "Caen1471_init 0 [''#BD:00,CMD:ERR'' @ [CR, LF], ?ok] real"
  let ?s1 = "\<lparr>module_id = 0,
          connection = Some \<lparr>is_open = True,
                              written = [''$BD:0,CMD:MON,PAR:BDNAME'' @ [CR, LF]],
                              incoming = [?ok]\<rparr>,
          busy = True, clock = real, ticks = 1\<rparr>"
  have err: "is_ascii (''#BD:00,CMD:ERR'' @ [CR, LF])"
    by (simp add: is_ascii_def CR_def LF_def)
  have "exchange ''MON'' ''BDNAME'' None None None (?s0\<lparr>ticks := Suc (ticks ?s0)\<rparr>)
          = (Inl UnknownCommandError, ?s1)"
    by (subst exchange_reply [where c = "\<lparr>is_open = True, written = [],
            incoming = [''#BD:00,CMD:ERR'' @ [CR, LF], ?ok]\<rparr>"
          and l = "''#BD:00,CMD:ERR'' @ [CR, LF]" and ls = "[?ok]"])
       (simp_all add: Caen1471_init_def encode_MON_BDNAME is_ascii_BDNAME err parse_reply_CMD_ERR
          del: append.simps)
  then have first: "command ''MON'' ''BDNAME'' None None None ?s0 = Some (Inl UnknownCommandError, ?s1)"
    by (simp add: command_free Caen1471_init_def)
  have second: "command ''MON'' ''BDNAME'' None None None ?s1
          = Some (Inl TimeoutError, ?s1\<lparr>ticks := Suc (Suc (ticks ?s1 + 5))\<rparr>)"
    by (rule command_busy) (simp_all add: less_Suc_eq)
  have third: "command ''MON'' ''BDNAME'' None None None (disconnect (Caen1471_init 0 [] real))
     = Some (Inl ConnectionError,
         \<lparr>module_id = 0,
          connection = Some \<lparr>is_open = False, written = [], incoming = []\<rparr>,
          busy = True, clock = real, ticks = 1\<rparr>)"
    by (simp add: command_free disconnect_def Caen1471_init_def
        exchange_closed [where c = "\<lparr>is_open = False, written = [], incoming = []\<rparr>"])
  from second have second': "command ''MON'' ''BDNAME'' None None None ?s1
     = Some (Inl TimeoutError,
         \<lparr>module_id = 0,
          connection = Some \<lparr>is_open = True,
                              written = [''$BD:0,CMD:MON,PAR:BDNAME'' @ [CR, LF]],
                              incoming = [?ok]\<rparr>,
          busy = True, clock = real, ticks = 8\<rparr>)"
    by simp
  show ?thesis
    by (rule conjI [OF first conjI [OF second' third]])
qed

section \<open>Properties of the command encoder\<close>

lemma takeWhile_stop: "\<forall>x \<in> set xs. P x \<Longrightarrow> \<not> P y \<Longrightarrow> takeWhile P (xs @ y # ys) = xs"
  by (induction xs) auto

lemma dropWhile_stop: "\<forall>x \<in> set xs. P x \<Longrightarrow> \<not> P y \<Longrightarrow> dropWhile P (xs @ y # ys) = y # ys"
  by (induction xs) auto

lemma strip_prefix_append: "strip_prefix p (p @ s) = Some s"
  by (induction p) auto

lemma read_number_str_nat:
  assumes "\<not> is_digit c"
  shows "read_number (str_nat n @ c # rest) = Some (n, c # rest)"
  using assms str_nat_digits [of n] str_nat_not_Nil [of n]
  by (simp add: read_number_def takeWhile_stop dropWhile_stop nat_of_digits_str_nat)

lemma str_int_nonneg: "0 \<le> i \<Longrightarrow> str_int i = str_nat (nat i)"
  by (simp add: str_int_def)

lemma read_operation_op:
  assumes "operation \<in> {''MON'', ''SET''}"
  shows "read_operation (operation @ rest) = Some (operation, rest)"
  using assms by (auto simp add: read_operation_def)

lemma is_delimiter_simps:
  "is_delimiter CHR '',''" "is_delimiter CR" "is_delimiter LF" "is_delimiter CHR '':''"
  by (simp_all add: is_delimiter_def)

lemma CR_neq_comma: "CR \<noteq> CHR '',''"
  by (simp add: CR_def)

lemma read_channel_none: "read_channel ('',PAR:'' @ rest) = Some (None, '',PAR:'' @ rest)"
  by (simp add: read_channel_def)

lemma read_channel_some:
  assumes "0 \<le> ch"
  shows "read_channel ('',CH:'' @ str_int ch @ '',PAR:'' @ rest) = Some (Some (nat ch), '',PAR:'' @ rest)"
proof -
  have "read_number (str_nat (nat ch) @ CHR '','' # ''PAR:'' @ rest)
          = Some (nat ch, CHR '','' # ''PAR:'' @ rest)"
    by (rule read_number_str_nat) (simp add: is_digit_def)
  then show ?thesis
    using assms by (simp add: read_channel_def str_int_nonneg)
qed

lemma read_value_none: "read_value [CR, LF] = (None, [CR, LF])"
  by (simp add: read_value_def CR_neq_comma)

lemma read_value_some:
  assumes "\<forall>c \<in> set v. \<not> is_delimiter c"
  shows "read_value ('',VAL:'' @ v @ [CR, LF]) = (Some v, [CR, LF])"
  using assms
    takeWhile_stop [of v "\<lambda>c. \<not> is_delimiter c" CR "[LF]"]
    dropWhile_stop [of v "\<lambda>c. \<not> is_delimiter c" CR "[LF]"]
  by (simp add: read_value_def is_delimiter_simps)

lemma encode_command_line:
  "encode_command m operation par channel val
     = ''$BD:'' @ str_int m @ '',CMD:'' @ operation
       @ (case channel of None \<Rightarrow> [] | Some ch \<Rightarrow> '',CH:'' @ str_int ch)
       @ '',PAR:'' @ par
       @ (case val of None \<Rightarrow> [] | Some x \<Rightarrow> '',VAL:'' @ py_str x)
       @ [CR, LF]"
  by (simp add: encode_command_def Let_def split: option.splits)

lemma match_request_line:
  assumes "0 \<le> m" and "operation \<in> {''MON'', ''SET''}"
    and "\<forall>c \<in> set par. \<not> is_delimiter c"
    and "\<forall>ch. channel = Some ch \<longrightarrow> 0 \<le> ch"
    and "\<forall>x. v = Some x \<longrightarrow> (\<forall>c \<in> set x. \<not> is_delimiter c)"
  shows "match_request (''$BD:'' @ str_int m @ '',CMD:'' @ operation
       @ (case channel of None \<Rightarrow> [] | Some ch \<Rightarrow> '',CH:'' @ str_int ch)
       @ '',PAR:'' @ par
       @ (case v of None \<Rightarrow> [] | Some x \<Rightarrow> '',VAL:'' @ x)
       @ [CR, LF])
     = Some \<lparr>req_module = nat m, req_operation = operation, req_channel = map_option nat channel,
              req_parameter = par, req_value = v\<rparr>"
proof -
  let ?tail = "(case v of None \<Rightarrow> [] | Some x \<Rightarrow> '',VAL:'' @ x) @ [CR, LF]"
  let ?r4 = "'',PAR:'' @ par @ ?tail"
  let ?r3 = "(case channel of None \<Rightarrow> [] | Some ch \<Rightarrow> '',CH:'' @ str_int ch) @ ?r4"
  let ?r1 = "'',CMD:'' @ operation @ ?r3"
  have n: "read_number (str_int m @ ?r1) = Some (nat m, ?r1)"
    using assms(1) read_number_str_nat [of "CHR '',''" "nat m" "''CMD:'' @ operation @ ?r3"]
    by (simp add: str_int_nonneg is_digit_def)
  have o: "read_operation (operation @ ?r3) = Some (operation, ?r3)"
    using assms(2) by (rule read_operation_op)
  have c: "read_channel ?r3 = Some (map_option nat channel, ?r4)"
  proof (cases channel)
    case None
    then show ?thesis using read_channel_none [of "par @ ?tail"] by simp
  next
    case (Some ch)
    with assms(4) have "0 \<le> ch" by simp
    then show ?thesis using Some read_channel_some [of ch "par @ ?tail"] by simp
  qed
  have hd_tail: "\<exists>y ys. ?tail = y # ys \<and> is_delimiter y"
    by (cases v) (simp_all add: is_delimiter_simps)
  then obtain y ys where t: "?tail = y # ys" "is_delimiter y" by blast
  have p1: "takeWhile (\<lambda>c. \<not> is_delimiter c) (par @ ?tail) = par"
    unfolding t(1) using assms(3) t(2) by (intro takeWhile_stop) simp_all
  have p2: "dropWhile (\<lambda>c. \<not> is_delimiter c) (par @ ?tail) = ?tail"
    unfolding t(1) using assms(3) t(2) by (intro dropWhile_stop) simp_all
  have v: "read_value ?tail = (v, [CR, LF])"
  proof (cases v)
    case None
    then show ?thesis by (simp add: read_value_none)
  next
    case (Some x)
    with assms(5) have "\<forall>c \<in> set x. \<not> is_delimiter c" by simp
    then show ?thesis using Some read_value_some [of x] by simp
  qed
  have s0: "strip_prefix ''$BD:'' (''$BD:'' @ str_int m @ ?r1) = Some (str_int m @ ?r1)"
    by (rule strip_prefix_append)
  have s1: "strip_prefix '',CMD:'' ?r1 = Some (operation @ ?r3)"
    by (rule strip_prefix_append)
  have s2: "strip_prefix '',PAR:'' ?r4 = Some (par @ ?tail)"
    by (rule strip_prefix_append)
  show ?thesis
    unfolding match_request_def s0 option.case n prod.case s1 o c s2 Let_def p1 p2 v
    by simp
qed

text \<open>
  Claim C5. For a module number from 0 to 99, the operation \<^verbatim>\<open>MON\<close> or \<^verbatim>\<open>SET\<close>, a mnemonic
  free of the delimiters, a channel from 0 to 3 when one is given and a value whose text is
  free of the delimiters when one is given, the encoder produces the line
  \<^verbatim>\<open>$BD:<module>,CMD:<operation>[,CH:<channel>],PAR:<mnemonic>[,VAL:<value>]\<close> with a carriage
  return and a newline at its end, the fields in this order, the \<^verbatim>\<open>CH\<close> and \<^verbatim>\<open>VAL\<close> fields
  left out when there is no channel and no value; and reading the line by the documented
  grammar gives the same fields back.
\<close>

theorem encode_command_roundtrip:
  assumes "0 \<le> m" and "m \<le> 99" and "operation \<in> {''MON'', ''SET''}"
    and "\<forall>c \<in> set par. \<not> is_delimiter c"
    and "\<forall>ch. channel = Some ch \<longrightarrow> 0 \<le> ch \<and> ch \<le> 3"
    and "\<forall>x. val = Some x \<longrightarrow> (\<forall>c \<in> set (py_str x). \<not> is_delimiter c)"
  shows "encode_command m operation par channel val
           = ''$BD:'' @ str_int m @ '',CMD:'' @ operation
             @ (case channel of None \<Rightarrow> [] | Some ch \<Rightarrow> '',CH:'' @ str_int ch)
             @ '',PAR:'' @ par
             @ (case val of None \<Rightarrow> [] | Some x \<Rightarrow> '',VAL:'' @ py_str x)
             @ [CR, LF]
         \<and> match_request (encode_command m operation par channel val)
             = Some \<lparr>req_module = nat m, req_operation = operation,
                      req_channel = map_option nat channel, req_parameter = par,
                      req_value = map_option py_str val\<rparr>"
proof -
  have line: "encode_command m operation par channel val
           = ''$BD:'' @ str_int m @ '',CMD:'' @ operation
             @ (case channel of None \<Rightarrow> [] | Some ch \<Rightarrow> '',CH:'' @ str_int ch)
             @ '',PAR:'' @ par
             @ (case map_option py_str val of None \<Rightarrow> [] | Some x \<Rightarrow> '',VAL:'' @ x)
             @ [CR, LF]"
    unfolding encode_command_line by (cases val) simp_all
  have ch: "\<forall>ch. channel = Some ch \<longrightarrow> 0 \<le> ch"
    using assms(5) by simp
  have v: "\<forall>x. map_option py_str val = Some x \<longrightarrow> (\<forall>c \<in> set x. \<not> is_delimiter c)"
    using assms(6) by auto
  have "match_request (encode_command m operation par channel val)
             = Some \<lparr>req_module = nat m, req_operation = operation,
                      req_channel = map_option nat channel, req_parameter = par,
                      req_value = map_option py_str val\<rparr>"
    unfolding line using assms(1,3,4) ch v by (rule match_request_line)
  with encode_command_line show ?thesis
    by simp
qed

theorem encode_command_roundtrip_witness:
  "(0::int) \<le> 2 \<and> (2::int) \<le> 99 \<and> ''SET'' \<in> {''MON'', ''SET''}
   \<and> list_all (\<lambda>c. \<not> is_delimiter c) ''VSET''
   \<and> list_all (\<lambda>c. \<not> is_delimiter c) (py_str (AStr ''12.5''))
   \<and> encode_command 2 ''SET'' ''VSET'' (Some 3) (Some (AStr ''12.5''))
       = ''$BD:2,CMD:SET,CH:3,PAR:VSET,VAL:12.5'' @ [CR, LF]
   \<and> match_request (encode_command 2 ''SET'' ''VSET'' (Some 3) (Some (AStr ''12.5'')))
       = Some \<lparr>req_module = 2, req_operation = ''SET'', req_channel = Some 3,
                req_parameter = ''VSET'', req_value = Some ''12.5''\<rparr>"
proof -
  have r: "encode_command 2 ''SET'' ''VSET'' (Some 3) (Some (AStr ''12.5''))
           = ''$BD:'' @ str_int 2 @ '',CMD:'' @ ''SET''
             @ (case Some 3 of None \<Rightarrow> [] | Some ch \<Rightarrow> '',CH:'' @ str_int ch)
             @ '',PAR:'' @ ''VSET''
             @ (case Some (AStr ''12.5'') of None \<Rightarrow> [] | Some x \<Rightarrow> '',VAL:'' @ py_str x)
             @ [CR, LF]
         \<and> match_request (encode_command 2 ''SET'' ''VSET'' (Some 3) (Some (AStr ''12.5'')))
             = Some \<lparr>req_module = nat 2, req_operation = ''SET'',
                      req_channel = map_option nat (Some 3), req_parameter = ''VSET'',
                      req_value = map_option py_str (Some (AStr ''12.5''))\<rparr>"
    by (rule encode_command_roundtrip) (simp_all add: is_delimiter_def CR_def LF_def)
  from r [THEN conjunct1] have a: "encode_command 2 ''SET'' ''VSET'' (Some 3) (Some (AStr ''12.5''))
       = ''$BD:2,CMD:SET,CH:3,PAR:VSET,VAL:12.5'' @ [CR, LF]"
    by (simp add: str_int_def str_nat_digit digit_char_numerals)
  from r [THEN conjunct2] have b: "match_request (encode_command 2 ''SET'' ''VSET'' (Some 3) (Some (AStr ''12.5'')))
       = Some \<lparr>req_module = 2, req_operation = ''SET'', req_channel = Some 3,
                req_parameter = ''VSET'', req_value = Some ''12.5''\<rparr>"
    by simp
  show ?thesis
    by (intro conjI a b) (simp_all add: is_delimiter_def CR_def LF_def)
qed

section \<open>Properties of the device facade\<close>

lemma is_ascii_append: "is_ascii (a @ b) = (is_ascii a \<and> is_ascii b)"
  by (auto simp add: is_ascii_def)

lemma is_digit_ascii: "is_digit c \<Longrightarrow> (of_char c :: nat) < 128"
  by (simp add: is_digit_def)

lemma is_ascii_str_nat: "is_ascii (str_nat n)"
  using str_nat_digits [of n] by (auto simp add: is_ascii_def dest: is_digit_ascii)

lemma is_ascii_str_int: "is_ascii (str_int i)"
  by (simp add: str_int_def is_ascii_Cons is_ascii_str_nat)

lemma is_ascii_CRLF: "is_ascii [CR, LF]"
  by (simp add: is_ascii_def CR_def LF_def)

lemma is_ascii_encode_command:
  assumes "is_ascii cmd" and "is_ascii par" and "\<forall>x. v = Some x \<longrightarrow> is_ascii (py_str x)"
  shows "is_ascii (encode_command m cmd par channel v)"
  using assms unfolding encode_command_line
  by (cases channel; cases v)
     (simp_all add: is_ascii_append is_ascii_str_int is_ascii_Cons is_ascii_Nil CR_def LF_def)

text \<open>
  A call on an object that is not busy and whose connection is open, when the next line
  that the device sends is known.
\<close>

lemma command_reply:
  assumes "\<not> busy s" and "connection s = Some c" and "is_open c" and "incoming c = l # ls"
    and "is_ascii (encode_command (module_id s) cmd par channel v)" and "is_ascii l"
  shows "command cmd par channel v rtype s =
           Some (case parse_reply l rtype of
              Inl e \<Rightarrow>
                (Inl e,
                 s\<lparr>ticks := Suc (ticks s), busy := True,
                   connection := Some (c\<lparr>written := written c @ [encode_command (module_id s) cmd par channel v],
                                         incoming := ls\<rparr>)\<rparr>)
            | Inr r \<Rightarrow>
                (Inr r,
                 s\<lparr>ticks := Suc (ticks s), busy := False,
                   connection := Some (c\<lparr>written := written c @ [encode_command (module_id s) cmd par channel v],
                                         incoming := ls\<rparr>)\<rparr>))"
proof -
  let ?s = "s\<lparr>ticks := Suc (ticks s)\<rparr>"
  have "exchange cmd par channel v rtype ?s =
           (case parse_reply l rtype of
              Inl e \<Rightarrow>
                (Inl e,
                 ?s\<lparr>busy := True,
                   connection := Some (c\<lparr>written := written c @ [encode_command (module_id ?s) cmd par channel v],
                                         incoming := ls\<rparr>)\<rparr>)
            | Inr r \<Rightarrow>
                (Inr r,
                 ?s\<lparr>busy := False,
                   connection := Some (c\<lparr>written := written c @ [encode_command (module_id ?s) cmd par channel v],
                                         incoming := ls\<rparr>)\<rparr>))"
    using assms by (intro exchange_reply) simp_all
  with assms(1) show ?thesis
    by (simp add: command_free split: sum.splits)
qed

lemma command_init:
  assumes "is_ascii cmd" and "is_ascii par" and "\<forall>x. v = Some x \<longrightarrow> is_ascii (py_str x)"
    and "is_ascii l"
  shows "command cmd par channel v rtype (Caen1471_init m (l # ls) clk) =
           Some (case parse_reply l rtype of
              Inl e \<Rightarrow>
                (Inl e,
                 \<lparr>module_id = m,
                  connection = Some \<lparr>is_open = True,
                                      written = [encode_command m cmd par channel v],
                                      incoming = ls\<rparr>,
                  busy = True, clock = clk, ticks = 1\<rparr>)
            | Inr r \<Rightarrow>
                (Inr r,
                 \<lparr>module_id = m,
                  connection = Some \<lparr>is_open = True,
                                      written = [encode_command m cmd par channel v],
                                      incoming = ls\<rparr>,
                  busy = False, clock = clk, ticks = 1\<rparr>))"
proof -
  let ?s = "Caen1471_init m (l # ls) clk"
  have a: "is_ascii (encode_command (module_id ?s) cmd par channel v)"
    using assms(1,2,3) by (rule is_ascii_encode_command)
  have "\<not> busy ?s" "connection ?s = Some \<lparr>is_open = True, written = [], incoming = l # ls\<rparr>"
    by (simp_all add: Caen1471_init_def)
  from command_reply [OF this _ _ a assms(4), of ls rtype]
  show ?thesis
    by (simp add: Caen1471_init_def split: sum.splits)
qed

lemma is_ascii_literals:
  "is_ascii ''MON''" "is_ascii ''SET''" "is_ascii ''BDALARM''" "is_ascii ''BDTERM''"
  "is_ascii ''POL''" "is_ascii ''VSET''" "is_ascii ''ISET''" "is_ascii ''RUP''" "is_ascii ''RDW''"
  by (simp_all add: is_ascii_def)

lemma is_ascii_reply: "is_ascii s \<Longrightarrow> is_ascii (''#BD:00,CMD:OK,VAL:'' @ s @ [CR, LF])"
  by (simp add: is_ascii_def CR_def LF_def)

lemma parse_reply_00:
  "LF \<notin> set payload \<Longrightarrow>
   parse_reply (''#BD:00,CMD:OK,VAL:'' @ payload @ [CR, LF]) None = Inr (Some (PStr payload))"
  using parse_reply_ok [of "CHR ''0''" "CHR ''0''" payload "[]" "[]" None]
  by (simp add: is_digit_def)

lemma command_value:
  assumes "is_ascii cmd" and "is_ascii par" and "is_ascii payload" and "LF \<notin> set payload"
  shows "command cmd par channel None None
           (Caen1471_init 0 [''#BD:00,CMD:OK,VAL:'' @ payload @ [CR, LF]] clk)
         = Some (Inr (Some (PStr payload)),
             \<lparr>module_id = 0,
              connection = Some \<lparr>is_open = True,
                                  written = [encode_command 0 cmd par channel None],
                                  incoming = []\<rparr>,
              busy = False, clock = clk, ticks = 1\<rparr>)"
  using command_init [OF assms(1,2) _ is_ascii_reply [OF assms(3)], of None channel None 0 "[]" clk]
    parse_reply_00 [OF assms(4)]
  by simp

lemma py_int_3: "py_int ''3'' = Inr 3"
  by (simp add: py_int_def split_sign_def strip_def is_space_def is_digitpart_def is_digit_def
      digits_of_def nat_of_digits_def digit_val_def Let_def)

lemma py_int_2: "py_int ''2'' = Inr 2"
  by (simp add: py_int_def split_sign_def strip_def is_space_def is_digitpart_def is_digit_def
      digits_of_def nat_of_digits_def digit_val_def Let_def)

lemma py_int_plus_1: "py_int ''+1'' = Inr 1"
  by (simp add: py_int_def split_sign_def strip_def is_space_def is_digitpart_def is_digit_def
      digits_of_def nat_of_digits_def digit_val_def Let_def)

lemma py_int_minus_1: "py_int ''-1'' = Inr (- 1)"
  by (simp add: py_int_def split_sign_def strip_def is_space_def is_digitpart_def is_digit_def
      digits_of_def nat_of_digits_def digit_val_def Let_def)

text \<open>
  Claim C2. \<^verbatim>\<open>AlarmStatus\<close> is a plain enumeration whose values are the single bits, and
  \<^verbatim>\<open>alarm_status\<close> looks the alarm word up among them: a word with one bit set, here
  \<^verbatim>\<open>2\<close>, gives the member of that bit, but the word \<^verbatim>\<open>3\<close>, in which the alarms of channel 0
  and of channel 1 are both set, is the value of no member and the read raises
  \<^verbatim>\<open>ValueError\<close>; so does every combination of two named bits that is looked up.
\<close>

theorem alarm_status_several_bits:
  "alarm_status (Caen1471_init 0 [''#BD:00,CMD:OK,VAL:3'' @ [CR, LF]] real)
     = Some (Inl ValueError,
         \<lparr>module_id = 0,
          connection = Some \<lparr>is_open = True,
                              written = [encode_command 0 ''MON'' ''BDALARM'' None None],
                              incoming = []\<rparr>,
          busy = False, clock = real, ticks = 1\<rparr>)
   \<and> alarm_status (Caen1471_init 0 [''#BD:00,CMD:OK,VAL:2'' @ [CR, LF]] real)
     = Some (Inr CHANNEL_1_ALARM,
         \<lparr>module_id = 0,
          connection = Some \<lparr>is_open = True,
                              written = [encode_command 0 ''MON'' ''BDALARM'' None None],
                              incoming = []\<rparr>,
          busy = False, clock = real, ticks = 1\<rparr>)
   \<and> AlarmStatus_of (alarm_value CHANNEL_0_ALARM OR alarm_value CHANNEL_1_ALARM) = Inl ValueError
   \<and> AlarmStatus_of (alarm_value CHANNEL_0_ALARM OR alarm_value BOARD_HV_CLOCK_FAIL) = Inl ValueError"
proof -
  have three: "command ''MON'' ''BDALARM'' None None None
           (Caen1471_init 0 [''#BD:00,CMD:OK,VAL:3'' @ [CR, LF]] real)
         = Some (Inr (Some (PStr ''3'')),
             \<lparr>module_id = 0,
              connection = Some \<lparr>is_open = True,
                                  written = [encode_command 0 ''MON'' ''BDALARM'' None None],
                                  incoming = []\<rparr>,
              busy = False, clock = real, ticks = 1\<rparr>)"
    using command_value [of "''MON''" "''BDALARM''" "''3''" None real]
    by (simp add: is_ascii_def LF_def)
  have two: "command ''MON'' ''BDALARM'' None None None
           (Caen1471_init 0 [''#BD:00,CMD:OK,VAL:2'' @ [CR, LF]] real)
         = Some (Inr (Some (PStr ''2'')),
             \<lparr>module_id = 0,
              connection = Some \<lparr>is_open = True,
                                  written = [encode_command 0 ''MON'' ''BDALARM'' None None],
                                  incoming = []\<rparr>,
              busy = False, clock = real, ticks = 1\<rparr>)"
    using command_value [of "''MON''" "''BDALARM''" "''2''" None real]
    by (simp add: is_ascii_def LF_def)
  have a3: "AlarmStatus_of 3 = Inl ValueError"
    by (simp add: AlarmStatus_of_def AlarmStatus_members_def)
  have a2: "AlarmStatus_of 2 = Inr CHANNEL_1_ALARM"
    by (simp add: AlarmStatus_of_def AlarmStatus_members_def)
  have a65: "AlarmStatus_of 65 = Inl ValueError"
    by (simp add: AlarmStatus_of_def AlarmStatus_members_def)
  have o1: "alarm_value CHANNEL_0_ALARM OR alarm_value CHANNEL_1_ALARM = 3"
    by simp
  have o2: "alarm_value CHANNEL_0_ALARM OR alarm_value BOARD_HV_CLOCK_FAIL = 65"
    by simp
  show ?thesis
    unfolding alarm_status_def three two o1 o2
    by (simp add: py_int_3 py_int_2 a3 a2 a65)
qed

text \<open>
  Claim C9. When the exchange \<^verbatim>\<open>MON POL\<close> of a channel returns the payload string \<^verbatim>\<open>+\<close>, the
  polarity is the integer 1, and for the payload \<^verbatim>\<open>-\<close> it is the integer -1: the getter
  reads the payload with the digit 1 after it as a signed integer.
\<close>

theorem polarity_sign:
  assumes "command ''MON'' ''POL'' (Some channel) None None s = Some (Inr (Some (PStr payload)), s1)"
  shows "polarity channel s = Some (py_int (payload @ ''1''), s1)
         \<and> (payload = ''+'' \<longrightarrow> polarity channel s = Some (Inr 1, s1))
         \<and> (payload = ''-'' \<longrightarrow> polarity channel s = Some (Inr (- 1), s1))"
  using assms by (simp add: polarity_def py_int_plus_1 py_int_minus_1)

theorem polarity_sign_witness:
  "command ''MON'' ''POL'' (Some 0) None None (Caen1471_init 0 [''#BD:00,CMD:OK,VAL:-'' @ [CR, LF]] real)
     = Some (Inr (Some (PStr ''-'')),
         \<lparr>module_id = 0,
          connection = Some \<lparr>is_open = True,
                              written = [encode_command 0 ''MON'' ''POL'' (Some 0) None],
                              incoming = []\<rparr>,
          busy = False, clock = real, ticks = 1\<rparr>)
   \<and> polarity 0 (Caen1471_init 0 [''#BD:00,CMD:OK,VAL:-'' @ [CR, LF]] real)
     = Some (Inr (- 1),
         \<lparr>module_id = 0,
          connection = Some \<lparr>is_open = True,
                              written = [encode_command 0 ''MON'' ''POL'' (Some 0) None],
                              incoming = []\<rparr>,
          busy = False, clock = real, ticks = 1\<rparr>)"
proof -
  have c: "command ''MON'' ''POL'' (Some 0) None None (Caen1471_init 0 [''#BD:00,CMD:OK,VAL:-'' @ [CR, LF]] real)
     = Some (Inr (Some (PStr ''-'')),
         \<lparr>module_id = 0,
          connection = Some \<lparr>is_open = True,
                              written = [encode_command 0 ''MON'' ''POL'' (Some 0) None],
                              incoming = []\<rparr>,
          busy = False, clock = real, ticks = 1\<rparr>)"
    using command_value [of "''MON''" "''POL''" "''-''" "Some 0" real]
    by (simp add: is_ascii_def LF_def)
  from polarity_sign [OF c, THEN conjunct2, THEN conjunct2] have "polarity 0 (Caen1471_init 0 [''#BD:00,CMD:OK,VAL:-'' @ [CR, LF]] real)
     = Some (Inr (- 1),
         \<lparr>module_id = 0,
          connection = Some \<lparr>is_open = True,
                              written = [encode_command 0 ''MON'' ''POL'' (Some 0) None],
                              incoming = []\<rparr>,
          busy = False, clock = real, ticks = 1\<rparr>)"
    by simp
  with c show ?thesis
    by (rule conjI)
qed

text \<open>
  Claim C10. The read of the bus termination returns a boolean that is true exactly when
  the result of the exchange \<^verbatim>\<open>MON BDTERM\<close> is the string \<^verbatim>\<open>ON\<close>; the payloads \<^verbatim>\<open>on\<close> and
  \<^verbatim>\<open>OFF\<close> and the result without a value give false.
\<close>

theorem local_bus_termination_ON:
  assumes "command ''MON'' ''BDTERM'' None None None s = Some (Inr r, s1)"
  shows "local_bus_termination s = Some (Inr (r = Some (PStr ''ON'')), s1)
         \<and> (r = Some (PStr ''ON'') \<longrightarrow> local_bus_termination s = Some (Inr True, s1))
         \<and> (r = Some (PStr ''on'') \<or> r = Some (PStr ''OFF'') \<or> r = None
              \<longrightarrow> local_bus_termination s = Some (Inr False, s1))"
  using assms by (auto simp add: local_bus_termination_def)

theorem local_bus_termination_ON_witness:
  "command ''MON'' ''BDTERM'' None None None (Caen1471_init 0 [''#BD:00,CMD:OK,VAL:ON'' @ [CR, LF]] real)
     = Some (Inr (Some (PStr ''ON'')),
         \<lparr>module_id = 0,
          connection = Some \<lparr>is_open = True,
                              written = [encode_command 0 ''MON'' ''BDTERM'' None None],
                              incoming = []\<rparr>,
          busy = False, clock = real, ticks = 1\<rparr>)
   \<and> local_bus_termination (Caen1471_init 0 [''#BD:00,CMD:OK,VAL:ON'' @ [CR, LF]] real)
     = Some (Inr True,
         \<lparr>module_id = 0,
          connection = Some \<lparr>is_open = True,
                              written = [encode_command 0 ''MON'' ''BDTERM'' None None],
                              incoming = []\<rparr>,
          busy = False, clock = real, ticks = 1\<rparr>)"
proof -
  have c: "command ''MON'' ''BDTERM'' None None None (Caen1471_init 0 [''#BD:00,CMD:OK,VAL:ON'' @ [CR, LF]] real)
     = Some (Inr (Some (PStr ''ON'')),
         \<lparr>module_id = 0,
          connection = Some \<lparr>is_open = True,
                              written = [encode_command 0 ''MON'' ''BDTERM'' None None],
                              incoming = []\<rparr>,
          busy = False, clock = real, ticks = 1\<rparr>)"
    using command_value [of "''MON''" "''BDTERM''" "''ON''" None real]
    by (simp add: is_ascii_def LF_def)
  from local_bus_termination_ON [OF c, THEN conjunct1] have "local_bus_termination (Caen1471_init 0 [''#BD:00,CMD:OK,VAL:ON'' @ [CR, LF]] real)
     = Some (Inr True,
         \<lparr>module_id = 0,
          connection = Some \<lparr>is_open = True,
                              written = [encode_command 0 ''MON'' ''BDTERM'' None None],
                              incoming = []\<rparr>,
          busy = False, clock = real, ticks = 1\<rparr>)"
    by simp
  with c show ?thesis
    by (rule conjI)
qed

lemma is_digit_minus: "is_digit c \<Longrightarrow> c \<noteq> CHR ''-''"
  by (auto simp add: is_digit_def)

lemma is_digit_point: "\<not> is_digit CHR ''.''"
  by (simp add: is_digit_def)

lemma one_decimal_digits:
  assumes "ds \<noteq> []" and "\<forall>c \<in> set ds. is_digit c" and "is_digit d"
  shows "one_decimal ((if neg then ''-'' else '''') @ ds @ ''.'' @ [d])"
proof -
  from assms(1) obtain c cs where ds: "ds = c # cs" by (cases ds) auto
  with assms(2) have c: "c \<noteq> CHR ''-''" by (simp add: is_digit_minus)
  have t: "takeWhile is_digit (ds @ CHR ''.'' # [d]) = ds"
    using assms(2) is_digit_point by (rule takeWhile_stop)
  have r: "dropWhile is_digit (ds @ CHR ''.'' # [d]) = CHR ''.'' # [d]"
    using assms(2) is_digit_point by (rule dropWhile_stop)
  have body: "(case (if neg then ''-'' else '''') @ ds @ ''.'' @ [d] of [] \<Rightarrow> []
                | c # cs \<Rightarrow> if c = CHR ''-'' then cs else (if neg then ''-'' else '''') @ ds @ ''.'' @ [d])
              = ds @ CHR ''.'' # [d]"
    using c by (simp add: ds)
  show ?thesis
    unfolding one_decimal_def body Let_def t r using assms(1,3) by simp
qed

lemma one_decimal_fixed_1: "one_decimal (fixed_1 neg q)"
  unfolding fixed_1_def Let_def
  by (rule one_decimal_digits) (simp_all add: str_nat_not_Nil str_nat_digits is_digit_digit_char)

lemma format_1f_finite:
  assumes "is_finite_number x" and "format_1f x = Inr v"
  shows "one_decimal v"
proof (cases x)
  case (NInt i)
  with assms(2) show ?thesis
    by (auto simp add: one_decimal_fixed_1 split: sum.splits)
next
  case (NFloat f)
  with assms show ?thesis
    by (cases f) (auto simp add: one_decimal_fixed_1 is_finite_number_def)
qed

lemma is_ascii_fixed_1: "is_ascii (fixed_1 neg q)"
  by (simp add: fixed_1_def Let_def is_ascii_append is_ascii_str_nat is_ascii_Cons is_ascii_Nil
      is_digit_ascii is_digit_digit_char)

lemma is_ascii_format_1f: "format_1f x = Inr v \<Longrightarrow> is_ascii v"
proof (cases x)
  case (NInt i)
  assume "format_1f x = Inr v"
  with NInt show ?thesis
    by (auto simp add: is_ascii_fixed_1 split: sum.splits)
next
  case (NFloat f)
  assume "format_1f x = Inr v"
  with NFloat show ?thesis
    by (cases f) (auto simp add: is_ascii_fixed_1 is_ascii_Cons is_ascii_Nil)
qed

lemma exchange_written:
  assumes "connection s = Some c" and "is_open c"
    and "is_ascii (encode_command (module_id s) cmd par channel v)"
  shows "\<exists>r s1 c1. exchange cmd par channel v rtype s = (r, s1) \<and> connection s1 = Some c1
           \<and> written c1 = written c @ [encode_command (module_id s) cmd par channel v]"
  using assms
  by (auto simp add: exchange_def readline_def Let_def split: list.splits sum.splits)

lemma command_written:
  assumes "\<not> busy s" and "connection s = Some c" and "is_open c"
    and "is_ascii cmd" and "is_ascii par" and "\<forall>x. v = Some x \<longrightarrow> is_ascii (py_str x)"
  shows "\<exists>r s1 c1. command cmd par channel v rtype s = Some (r, s1) \<and> connection s1 = Some c1
           \<and> written c1 = written c @ [encode_command (module_id s) cmd par channel v]"
proof -
  let ?s = "s\<lparr>ticks := Suc (ticks s)\<rparr>"
  have "is_ascii (encode_command (module_id ?s) cmd par channel v)"
    using assms(4,5,6) by (rule is_ascii_encode_command)
  with assms(2,3) exchange_written [of ?s c cmd par channel v rtype]
  show ?thesis
    using assms(1) by (simp add: command_free)
qed

lemma digit_char_Suc_0: "digit_char (Suc 0) = CHR ''1''"
  using digit_char_numerals(2) by simp

lemma format_1f_example: "format_1f (NFloat (Finite False (25 / 2))) = Inr ''12.5''"
  by (simp add: fixed_1_def round_half_even_def Let_def str_nat_digit str_nat_step digit_char_numerals digit_char_Suc_0)

lemma format_1f_example2: "format_1f (NInt 5) = Inr ''5.0''"
  by (simp add: fixed_1_def round_half_even_def float_of_nat_def bit_length.simps Let_def str_nat_digit str_nat_step digit_char_numerals digit_char_Suc_0)

lemma str_int_5: "str_int 5 = ''5''"
  by (simp add: str_int_def str_nat_digit digit_char_numerals)

lemma parse_reply_no_value: "parse_reply (''#BD:00,CMD:OK'' @ [CR, LF]) None = Inr None"
  by (simp add: parse_reply_def check_error_def match_error_def match_ok_def lstrip_def
      is_space_def is_digit_def at_dollar_def CR_def LF_def Let_def)

lemma not_one_decimal_5: "\<not> one_decimal ''5''"
  by (simp add: one_decimal_def is_digit_def Let_def)

text \<open>
  Claim C8, as stated, fails for the ramp rates: the setters of the ramp-up and the
  ramp-down rate hand the rate to \<^verbatim>\<open>_command\<close> unformatted, so the rate 5 is written as
  \<^verbatim>\<open>VAL:5\<close>, which has no decimal digit.
\<close>

theorem ramp_rate_not_formatted:
  "ramp_up_rate_setter 0 (Some (AInt 5)) (Caen1471_init 0 [''#BD:00,CMD:OK'' @ [CR, LF]] real)
     = Some (Inr None,
         \<lparr>module_id = 0,
          connection = Some \<lparr>is_open = True,
                              written = [''$BD:0,CMD:SET,CH:0,PAR:RUP,VAL:5'' @ [CR, LF]],
                              incoming = []\<rparr>,
          busy = False, clock = real, ticks = 1\<rparr>)
   \<and> ramp_down_rate_setter 0 (Some (AInt 5)) (Caen1471_init 0 [''#BD:00,CMD:OK'' @ [CR, LF]] real)
     = Some (Inr None,
         \<lparr>module_id = 0,
          connection = Some \<lparr>is_open = True,
                              written = [''$BD:0,CMD:SET,CH:0,PAR:RDW,VAL:5'' @ [CR, LF]],
                              incoming = []\<rparr>,
          busy = False, clock = real, ticks = 1\<rparr>)
   \<and> \<not> one_decimal ''5''"
proof -
  have l: "is_ascii (''#BD:00,CMD:OK'' @ [CR, LF])"
    by (simp add: is_ascii_def CR_def LF_def)
  have v: "\<forall>x. Some (AInt 5) = Some x \<longrightarrow> is_ascii (py_str x)"
    by (simp add: is_ascii_str_int)
  have e: "encode_command 0 ''SET'' par (Some 0) (Some (AInt 5))
             = ''$BD:0,CMD:SET,CH:0,PAR:'' @ par @ '',VAL:5'' @ [CR, LF]" for par
    by (simp add: encode_command_line str_int_0 str_int_5)
  have up: "ramp_up_rate_setter 0 (Some (AInt 5)) (Caen1471_init 0 [''#BD:00,CMD:OK'' @ [CR, LF]] real)
     = Some (Inr None,
         \<lparr>module_id = 0,
          connection = Some \<lparr>is_open = True,
                              written = [''$BD:0,CMD:SET,CH:0,PAR:RUP,VAL:5'' @ [CR, LF]],
                              incoming = []\<rparr>,
          busy = False, clock = real, ticks = 1\<rparr>)"
    unfolding ramp_up_rate_setter_def
      command_init [OF is_ascii_literals(2) is_ascii_literals(8) v l] parse_reply_no_value e
    by simp
  have down: "ramp_down_rate_setter 0 (Some (AInt 5)) (Caen1471_init 0 [''#BD:00,CMD:OK'' @ [CR, LF]] real)
     = Some (Inr None,
         \<lparr>module_id = 0,
          connection = Some \<lparr>is_open = True,
                              written = [''$BD:0,CMD:SET,CH:0,PAR:RDW,VAL:5'' @ [CR, LF]],
                              incoming = []\<rparr>,
          busy = False, clock = real, ticks = 1\<rparr>)"
    unfolding ramp_down_rate_setter_def
      command_init [OF is_ascii_literals(2) is_ascii_literals(9) v l] parse_reply_no_value e
    by simp
  show ?thesis
    by (rule conjI [OF up conjI [OF down not_one_decimal_5]])
qed

text \<open>
  Claim C8, amended. On an object that is not busy and whose connection is open, a write of
  the target voltage or of the current limit with a finite number puts the number into the
  \<^verbatim>\<open>VAL\<close> field formatted with exactly one decimal digit; a write of the ramp-up or of the
  ramp-down rate puts in the text of the value as it is.
\<close>

theorem voltage_current_one_decimal:
  assumes "\<not> busy s" and "connection s = Some c" and "is_open c"
    and "is_finite_number x" and "format_1f x = Inr v"
  shows "one_decimal v
         \<and> (\<exists>r s1 c1. voltage_setter channel x s = Some (r, s1) \<and> connection s1 = Some c1
               \<and> written c1 = written c
                    @ [''$BD:'' @ str_int (module_id s) @ '',CMD:SET,CH:'' @ str_int channel
                         @ '',PAR:VSET,VAL:'' @ v @ [CR, LF]])
         \<and> (\<exists>r s1 c1. current_limit_setter channel x s = Some (r, s1) \<and> connection s1 = Some c1
               \<and> written c1 = written c
                    @ [''$BD:'' @ str_int (module_id s) @ '',CMD:SET,CH:'' @ str_int channel
                         @ '',PAR:ISET,VAL:'' @ v @ [CR, LF]])
         \<and> (\<forall>a. is_ascii (py_str a) \<longrightarrow>
               (\<exists>r s1 c1. ramp_up_rate_setter channel (Some a) s = Some (r, s1) \<and> connection s1 = Some c1
                 \<and> written c1 = written c
                      @ [''$BD:'' @ str_int (module_id s) @ '',CMD:SET,CH:'' @ str_int channel
                           @ '',PAR:RUP,VAL:'' @ py_str a @ [CR, LF]]))
         \<and> (\<forall>a. is_ascii (py_str a) \<longrightarrow>
               (\<exists>r s1 c1. ramp_down_rate_setter channel (Some a) s = Some (r, s1) \<and> connection s1 = Some c1
                 \<and> written c1 = written c
                      @ [''$BD:'' @ str_int (module_id s) @ '',CMD:SET,CH:'' @ str_int channel
                           @ '',PAR:RDW,VAL:'' @ py_str a @ [CR, LF]]))"
proof -
  have one: "one_decimal v"
    using assms(4,5) by (rule format_1f_finite)
  have av: "\<forall>y. Some (AStr v) = Some y \<longrightarrow> is_ascii (py_str y)"
    using is_ascii_format_1f [OF assms(5)] by simp
  have line: "encode_command (module_id s) ''SET'' par (Some channel) (Some a)
        = ''$BD:'' @ str_int (module_id s) @ '',CMD:SET,CH:'' @ str_int channel
            @ '',PAR:'' @ par @ '',VAL:'' @ py_str a @ [CR, LF]" for par a
    by (simp add: encode_command_line)
  have volt: "\<exists>r s1 c1. voltage_setter channel x s = Some (r, s1) \<and> connection s1 = Some c1
               \<and> written c1 = written c
                    @ [''$BD:'' @ str_int (module_id s) @ '',CMD:SET,CH:'' @ str_int channel
                         @ '',PAR:VSET,VAL:'' @ v @ [CR, LF]]"
    using command_written [OF assms(1,2,3) is_ascii_literals(2) is_ascii_literals(6) av,
        of "Some channel" None]
    by (simp add: voltage_setter_def assms(5) line)
  have cur: "\<exists>r s1 c1. current_limit_setter channel x s = Some (r, s1) \<and> connection s1 = Some c1
               \<and> written c1 = written c
                    @ [''$BD:'' @ str_int (module_id s) @ '',CMD:SET,CH:'' @ str_int channel
                         @ '',PAR:ISET,VAL:'' @ v @ [CR, LF]]"
    using command_written [OF assms(1,2,3) is_ascii_literals(2) is_ascii_literals(7) av,
        of "Some channel" None]
    by (simp add: current_limit_setter_def assms(5) line)
  have up: "\<exists>r s1 c1. ramp_up_rate_setter channel (Some a) s = Some (r, s1) \<and> connection s1 = Some c1
                 \<and> written c1 = written c
                      @ [''$BD:'' @ str_int (module_id s) @ '',CMD:SET,CH:'' @ str_int channel
                           @ '',PAR:RUP,VAL:'' @ py_str a @ [CR, LF]]" if "is_ascii (py_str a)" for a
    using command_written [OF assms(1,2,3) is_ascii_literals(2) is_ascii_literals(8),
        of "Some a" "Some channel" None] that
    by (simp add: ramp_up_rate_setter_def line)
  have down: "\<exists>r s1 c1. ramp_down_rate_setter channel (Some a) s = Some (r, s1) \<and> connection s1 = Some c1
                 \<and> written c1 = written c
                      @ [''$BD:'' @ str_int (module_id s) @ '',CMD:SET,CH:'' @ str_int channel
                           @ '',PAR:RDW,VAL:'' @ py_str a @ [CR, LF]]" if "is_ascii (py_str a)" for a
    using command_written [OF assms(1,2,3) is_ascii_literals(2) is_ascii_literals(9),
        of "Some a" "Some channel" None] that
    by (simp add: ramp_down_rate_setter_def line)
  from one volt cur up down show ?thesis
    by blast
qed

theorem voltage_current_one_decimal_witness:
  "\<not> busy (Caen1471_init 0 [] real)
   \<and> connection (Caen1471_init 0 [] real) = Some \<lparr>is_open = True, written = [], incoming = []\<rparr>
   \<and> is_open \<lparr>is_open = True, written = [], incoming = []\<rparr>
   \<and> is_finite_number (NFloat (Finite False (25 / 2)))
   \<and> format_1f (NFloat (Finite False (25 / 2))) = Inr ''12.5''
   \<and> one_decimal ''12.5''
   \<and> (\<exists>r s1 c1. voltage_setter 0 (NFloat (Finite False (25 / 2))) (Caen1471_init 0 [] real) = Some (r, s1)
         \<and> connection s1 = Some c1
         \<and> written c1 = [''$BD:0,CMD:SET,CH:0,PAR:VSET,VAL:12.5'' @ [CR, LF]])"
proof -
  have h: "\<not> busy (Caen1471_init 0 [] real)"
    "connection (Caen1471_init 0 [] real) = Some \<lparr>is_open = True, written = [], incoming = []\<rparr>"
    "is_open \<lparr>is_open = True, written = [], incoming = []\<rparr>"
    "is_finite_number (NFloat (Finite False (25 / 2)))"
    by (simp_all add: Caen1471_init_def is_finite_number_def)
  note t = voltage_current_one_decimal [OF h format_1f_example, of 0]
  have m: "module_id (Caen1471_init 0 [] real) = 0"
    by (simp add: Caen1471_init_def)
  from t [THEN conjunct2, THEN conjunct1]
  have w: "\<exists>r s1 c1. voltage_setter 0 (NFloat (Finite False (25 / 2))) (Caen1471_init 0 [] real) = Some (r, s1)
         \<and> connection s1 = Some c1
         \<and> written c1 = [''$BD:0,CMD:SET,CH:0,PAR:VSET,VAL:12.5'' @ [CR, LF]]"
    by (simp add: m str_int_0)
  show ?thesis
    by (intro conjI h format_1f_example t [THEN conjunct1] w)
qed

end
